theory Spec2Isabelle
  imports Complex_Main "HOL-Library.List_Lexorder" "HOL-Library.Multiset"
begin

section \<open>The scan state machine of the Vision AI Scanner front end\<close>

text \<open>
  This theory embeds the scan control module \<^verbatim>\<open>static/scanner.js\<close> together with
  the constants it imports from \<^verbatim>\<open>constants.js\<close>. Module-scope variables become
  the fields of the record \<open>scanner\<close>; every function of the module becomes a function
  that takes the record and returns the updated one. Values the code reads from its
  collaborators during one call (the camera module, the canvases, \<^verbatim>\<open>Math.random\<close>,
  \<^verbatim>\<open>Date.now\<close>) are collected in the record \<open>env\<close>.

  Of the user interface only what decides whether a scan can be started is kept: the
  \<^verbatim>\<open>disabled\<close> attribute of the scan button, which \<^verbatim>\<open>syncUI\<close> and
  \<^verbatim>\<open>disableScanButton\<close> write. Status texts, the stability bar and the overlay
  are not modelled. The browser console is kept as a list, so that committed and rejected
  transitions can be observed in their order.
\<close>

subsection \<open>Constants (constants.js)\<close>

datatype ScanState = IDLE | SCANNING | ANALYZING | PAUSED_ERROR | PAUSED_DUPLICATE | COOLDOWN

fun SCAN_TRANSITIONS :: "ScanState \<Rightarrow> ScanState list" where
  "SCAN_TRANSITIONS IDLE = [SCANNING]"
| "SCAN_TRANSITIONS SCANNING = [IDLE, ANALYZING, PAUSED_DUPLICATE]"
| "SCAN_TRANSITIONS ANALYZING = [IDLE, SCANNING, PAUSED_ERROR, PAUSED_DUPLICATE, COOLDOWN]"
| "SCAN_TRANSITIONS PAUSED_ERROR = [IDLE, SCANNING]"
| "SCAN_TRANSITIONS PAUSED_DUPLICATE = [IDLE, SCANNING]"
| "SCAN_TRANSITIONS COOLDOWN = [IDLE, SCANNING]"

definition STABILITY_THRESHOLD :: nat where "STABILITY_THRESHOLD = 20"
definition MOTION_THRESHOLD :: real where "MOTION_THRESHOLD = 30"
definition MOTION_CANVAS_WIDTH :: nat where "MOTION_CANVAS_WIDTH = 64"
definition MOTION_CANVAS_HEIGHT :: nat where "MOTION_CANVAS_HEIGHT = 48"
definition RETRY_BASE_DELAY_MS :: real where "RETRY_BASE_DELAY_MS = 5000"
definition RETRY_MAX_DELAY_MS :: real where "RETRY_MAX_DELAY_MS = 60000"
definition IMAGE_HASH_SIZE :: nat where "IMAGE_HASH_SIZE = 8"
definition IMAGE_HASH_THRESHOLD :: real where "IMAGE_HASH_THRESHOLD = 95 / 100"
definition ENFORCE_CLIENT_DAILY_LIMIT :: bool where "ENFORCE_CLIENT_DAILY_LIMIT = False"

subsection \<open>Module state\<close>

text \<open>The analysis mode, one of the seven mode strings of the module.\<close>

datatype mode = Text | Object | Label | Face | Logo | Classify | Web

text \<open>The input source reported by the camera module: \<^verbatim>\<open>'camera'\<close>,
  \<^verbatim>\<open>'image'\<close> or \<^verbatim>\<open>'file'\<close>.\<close>

datatype source = Camera | Image | File

text \<open>A JavaScript string, as its list of UTF-16 code units.\<close>

type_synonym jsstring = "nat list"

text \<open>Console output of \<^verbatim>\<open>transitionTo\<close>: the log line of a committed transition
  and the warning of a rejected one, each with the state before and the requested state.\<close>

datatype console_line = Committed ScanState ScanState | Rejected ScanState ScanState

text \<open>A submission whose response is awaited: the locals of \<^verbatim>\<open>captureAndAnalyze\<close>
  that its continuation reads (\<^verbatim>\<open>currentHash\<close>, \<^verbatim>\<open>wasStreamingScan\<close>).\<close>

record submission =
  currentHash :: "nat list"
  wasStreamingScan :: bool

text \<open>
  Timer and animation-frame handles are the numbers the browser returns, \<open>None\<close> for
  \<^verbatim>\<open>null\<close>. \<open>nextHandle\<close> is the browser's handle counter. \<open>retryDelay\<close> records
  the delay argument of the last \<^verbatim>\<open>setTimeout\<close> of \<^verbatim>\<open>scheduleRetry\<close>, and
  \<open>inflight\<close> the submissions that are suspended at their \<^verbatim>\<open>await\<close>.
  \<open>apiCallCount\<close> and \<open>API_DAILY_LIMIT\<close> belong to the API client and the constants
  module; \<open>DUPLICATE_SKIP_COUNT\<close> is the mutable constant of the constants module.
\<close>

record scanner =
  scanState :: ScanState
  currentMode :: mode
  isSingleShot :: bool
  retryTimerId :: "nat option"
  consecutiveErrorCount :: nat
  continuousDelayTimerId :: "nat option"
  cooldownTimerId :: "nat option"
  cooldownRemaining :: int
  shouldRestartAfterCooldown :: bool
  lastSentImageHash :: "nat list option"
  lastResultFingerprint :: "jsstring option"
  duplicateCount :: nat
  lastFrameData :: "nat list option"
  stabilityCounter :: nat
  lastToggleTime :: int
  scanFrameCount :: nat
  scanRafId :: "nat option"
  DUPLICATE_SKIP_COUNT :: nat
  apiCallCount :: nat
  API_DAILY_LIMIT :: nat
  btnScanDisabled :: bool
  console :: "console_line list"
  nextHandle :: nat
  retryDelay :: "real option"
  inflight :: "submission list"

text \<open>The module as it is right after loading.\<close>

definition initial :: scanner where
  "initial = \<lparr> scanState = IDLE, currentMode = Text, isSingleShot = True,
     retryTimerId = None, consecutiveErrorCount = 0, continuousDelayTimerId = None,
     cooldownTimerId = None, cooldownRemaining = 0, shouldRestartAfterCooldown = False,
     lastSentImageHash = None, lastResultFingerprint = None, duplicateCount = 0,
     lastFrameData = None, stabilityCounter = 0, lastToggleTime = 0, scanFrameCount = 0,
     scanRafId = None, DUPLICATE_SKIP_COUNT = 2, apiCallCount = 0, API_DAILY_LIMIT = 1000,
     btnScanDisabled = False, console = [], nextHandle = 1, retryDelay = None,
     inflight = [] \<rparr>"

text \<open>What one call reads from outside the module.\<close>

record env =
  currentSource :: source
  sourceW :: nat
  videoReady :: bool
  frameData :: "nat list"
  cropHash :: "nat list"
  random :: real
  now :: int

subsection \<open>User interface (ui-manager.js), as far as the scan button goes\<close>

fun syncUI :: "ScanState \<Rightarrow> scanner \<Rightarrow> scanner" where
  "syncUI IDLE st = st\<lparr>btnScanDisabled := False\<rparr>"
| "syncUI SCANNING st = st\<lparr>btnScanDisabled := False\<rparr>"
| "syncUI ANALYZING st = st\<lparr>btnScanDisabled := True\<rparr>"
| "syncUI PAUSED_ERROR st = st\<lparr>btnScanDisabled := False\<rparr>"
| "syncUI PAUSED_DUPLICATE st = st\<lparr>btnScanDisabled := False\<rparr>"
| "syncUI COOLDOWN st = st\<lparr>btnScanDisabled := True\<rparr>"

definition disableScanButton :: "scanner \<Rightarrow> scanner" where
  "disableScanButton st = st\<lparr>btnScanDisabled := True\<rparr>"

subsection \<open>State transitions\<close>

text \<open>\<^verbatim>\<open>transitionTo(newState)\<close>: the returned boolean and the module afterwards.\<close>

definition transitionTo :: "ScanState \<Rightarrow> scanner \<Rightarrow> bool \<times> scanner" where
  "transitionTo newState st =
     (if scanState st = newState then (True, st)
      else if newState \<notin> set (SCAN_TRANSITIONS (scanState st))
      then (False, st\<lparr>console := console st @ [Rejected (scanState st) newState]\<rparr>)
      else (True, syncUI newState
              (st\<lparr>scanState := newState,
                  console := console st @ [Committed (scanState st) newState]\<rparr>)))"

subsection \<open>Handles\<close>

text \<open>\<^verbatim>\<open>if (id)\<close> on a handle variable: \<^verbatim>\<open>null\<close> and the number 0 are falsy.\<close>

fun truthy :: "nat option \<Rightarrow> bool" where
  "truthy None = False"
| "truthy (Some h) = (h \<noteq> 0)"

text \<open>\<^verbatim>\<open>scanRafId = requestAnimationFrame(scanLoop)\<close>: the browser hands out its next
  handle.\<close>

definition requestScanLoop :: "scanner \<Rightarrow> scanner" where
  "requestScanLoop st = st\<lparr>scanRafId := Some (nextHandle st), nextHandle := nextHandle st + 1\<rparr>"

text \<open>\<^verbatim>\<open>if (id) { clear...(id); id = null; }\<close> for each of the handle variables.\<close>

definition cancelScanLoop :: "scanner \<Rightarrow> scanner" where
  "cancelScanLoop st = (if truthy (scanRafId st) then st\<lparr>scanRafId := None\<rparr> else st)"

definition cancelRetryTimer :: "scanner \<Rightarrow> scanner" where
  "cancelRetryTimer st = (if truthy (retryTimerId st) then st\<lparr>retryTimerId := None\<rparr> else st)"

definition cancelContinuousDelay :: "scanner \<Rightarrow> scanner" where
  "cancelContinuousDelay st =
     (if truthy (continuousDelayTimerId st) then st\<lparr>continuousDelayTimerId := None\<rparr> else st)"

definition cancelCooldownTimer :: "scanner \<Rightarrow> scanner" where
  "cancelCooldownTimer st =
     (if truthy (cooldownTimerId st) then st\<lparr>cooldownTimerId := None\<rparr> else st)"

subsection \<open>API client (api-client.js)\<close>

definition isApiLimitReached :: "scanner \<Rightarrow> bool" where
  "isApiLimitReached st = (ENFORCE_CLIENT_DAILY_LIMIT \<and> apiCallCount st \<ge> API_DAILY_LIMIT st)"

subsection \<open>Image hash comparison\<close>

text \<open>The loop of \<^verbatim>\<open>compareImageHash\<close>, with its index and its accumulator.\<close>

function hashDiffLoop :: "nat list \<Rightarrow> nat list \<Rightarrow> nat \<Rightarrow> nat \<Rightarrow> nat" where
  "hashDiffLoop hashA hashB i totalDiff =
     (if i < length hashA
      then hashDiffLoop hashA hashB (i + 1)
             (totalDiff + nat \<bar>int (hashA ! i) - int (hashB ! i)\<bar>)
      else totalDiff)"
  by pat_completeness auto
termination
  by (relation "measure (\<lambda>(hashA, hashB, i, totalDiff). length hashA - i)") auto

text \<open>
  \<^verbatim>\<open>compareImageHash(hashA, hashB)\<close>. The result is a JavaScript number; \<open>None\<close>
  stands for \<^verbatim>\<open>NaN\<close>, which the division yields for two empty arrays. The arithmetic
  is exact here where the code computes in double precision; at the threshold the two
  agree, since \<open>1 - 816 / 16320\<close> rounds to the double nearest to \<open>0.95\<close> and every
  other total differs from it by at least \<open>1 / 16320\<close>.
\<close>

definition compareImageHash :: "nat list option \<Rightarrow> nat list option \<Rightarrow> real option" where
  "compareImageHash hashA hashB =
     (case hashA of None \<Rightarrow> Some 0
      | Some a \<Rightarrow>
         (case hashB of None \<Rightarrow> Some 0
          | Some b \<Rightarrow>
             if length a \<noteq> length b then Some 0
             else if length a = 0 then None
             else Some (1 - real (hashDiffLoop a b 0 0) / (real (length a) * 255))))"

text \<open>\<^verbatim>\<open>similarity >= IMAGE_HASH_THRESHOLD\<close>; a comparison with \<^verbatim>\<open>NaN\<close> is false.\<close>

fun atLeastThreshold :: "real option \<Rightarrow> bool" where
  "atLeastThreshold None = False"
| "atLeastThreshold (Some similarity) = (similarity \<ge> IMAGE_HASH_THRESHOLD)"

subsection \<open>Starting and stopping, and the synchronous part of a capture\<close>

text \<open>
  \<^verbatim>\<open>captureAndAnalyze\<close> is an async function. Its body up to the
  \<^verbatim>\<open>await fetchWithRetry(...)\<close> runs inside the caller; this part is the function
  below. It either returns at once (nothing to capture, or the crop is the one sent last)
  or leaves a submission behind in \<open>inflight\<close>. Cropping, resizing and JPEG encoding
  produce the request body and do not touch the module state; the hash of the crop is the
  input \<open>cropHash\<close>.

  The four functions call each other as in the source: a skipped single-shot capture
  stops the scan, stopping clears the cooldown, clearing the cooldown honours a start
  request made during the cooldown, and starting on a still image captures at once.
\<close>

function captureAndAnalyze :: "env \<Rightarrow> scanner \<Rightarrow> scanner"
  and stopScanning :: "env \<Rightarrow> scanner \<Rightarrow> scanner"
  and stopCooldownCountdown :: "env \<Rightarrow> scanner \<Rightarrow> scanner"
  and startScanning :: "env \<Rightarrow> scanner \<Rightarrow> scanner"
where
  "captureAndAnalyze env st =
     (if sourceW env = 0 \<or> scanState st = ANALYZING \<or> isApiLimitReached st then st
      else
        let st1 = snd (transitionTo ANALYZING st) in
        if lastSentImageHash st1 \<noteq> None \<and>
           atLeastThreshold (compareImageHash (Some (cropHash env)) (lastSentImageHash st1))
        then
          (if \<not> isSingleShot st1 \<and> currentSource env = Camera
           then requestScanLoop
                  ((snd (transitionTo SCANNING st1))\<lparr>stabilityCounter := 0, lastFrameData := None\<rparr>)
           else stopScanning env st1)
        else
          (let st2 = cancelScanLoop st1 in
           st2\<lparr>inflight := inflight st2 @
                 [\<lparr>currentHash = cropHash env,
                   wasStreamingScan = (currentSource env = Camera)\<rparr>]\<rparr>))"
| "stopScanning env st =
     (let st1 = syncUI IDLE (st\<lparr>scanState := IDLE\<rparr>);
          st2 = cancelContinuousDelay (cancelRetryTimer (cancelScanLoop st1));
          st3 = stopCooldownCountdown env st2
      in st3\<lparr>lastFrameData := None, stabilityCounter := 0,
              duplicateCount := 0, lastResultFingerprint := None\<rparr>)"
| "stopCooldownCountdown env st =
     (let wasActive = (cooldownTimerId st \<noteq> None);
          st1 = (cancelCooldownTimer st)\<lparr>cooldownRemaining := 0\<rparr>;
          st2 = (if wasActive \<and> scanState st1 = COOLDOWN
                 then syncUI IDLE (st1\<lparr>scanState := IDLE\<rparr>) else st1)
      in if shouldRestartAfterCooldown st2
         then startScanning env (st2\<lparr>shouldRestartAfterCooldown := False\<rparr>)
         else st2)"
| "startScanning env st =
     (if isApiLimitReached st then disableScanButton st
      else if \<not> fst (transitionTo SCANNING st) then snd (transitionTo SCANNING st)
      else
        let st1 = (snd (transitionTo SCANNING st))
                    \<lparr>consecutiveErrorCount := 0, lastSentImageHash := None\<rparr>
        in if currentSource env = Image then captureAndAnalyze env st1
           else requestScanLoop (st1\<lparr>scanFrameCount := 0\<rparr>))"
  by pat_completeness auto
termination
  apply (relation "measure (\<lambda>x. case x of
           Inl (Inl (env, st)) \<Rightarrow> (if lastSentImageHash st = None then 0 else 4)
         | Inl (Inr (env, st)) \<Rightarrow> 3
         | Inr (Inl (env, st)) \<Rightarrow> 2
         | Inr (Inr (env, st)) \<Rightarrow> (1::nat))")
      apply (auto simp: transitionTo_def split: if_splits)
  done

declare captureAndAnalyze.simps [simp del] stopScanning.simps [simp del]
  stopCooldownCountdown.simps [simp del] startScanning.simps [simp del]
  hashDiffLoop.simps [simp del]

subsection \<open>Stability detection\<close>

text \<open>
  A frame is the RGBA byte array read from the motion canvas, four bytes per pixel; the
  canvas has a fixed size, so all frames have the length
  \<open>4 * MOTION_CANVAS_WIDTH * MOTION_CANVAS_HEIGHT\<close>. The loop adds the differences of
  the three colour channels and skips the alpha channel.
\<close>

function frameDiffLoop :: "nat list \<Rightarrow> nat list \<Rightarrow> nat \<Rightarrow> nat \<Rightarrow> nat" where
  "frameDiffLoop currentFrameData lastFrame i diff =
     (if i < length currentFrameData
      then frameDiffLoop currentFrameData lastFrame (i + 4)
             (diff + nat \<bar>int (currentFrameData ! i) - int (lastFrame ! i)\<bar>
                   + nat \<bar>int (currentFrameData ! (i + 1)) - int (lastFrame ! (i + 1))\<bar>
                   + nat \<bar>int (currentFrameData ! (i + 2)) - int (lastFrame ! (i + 2))\<bar>)
      else diff)"
  by pat_completeness auto
termination
  by (relation "measure (\<lambda>(cur, lastFrame, i, diff). length cur - i)") auto

declare frameDiffLoop.simps [simp del]

definition avgDiff :: "nat list \<Rightarrow> nat list \<Rightarrow> real" where
  "avgDiff currentFrameData lastFrame =
     real (frameDiffLoop currentFrameData lastFrame 0 0) /
     real (MOTION_CANVAS_WIDTH * MOTION_CANVAS_HEIGHT)"

text \<open>
  \<^verbatim>\<open>checkStabilityAndCapture\<close>. The boolean tells whether this call reached the
  capture branch, that is, whether the stable event fired. While paused for duplicates the
  function returns from inside the branch, before the current frame is stored as the
  reference frame. The timer that resets the stability bar after a capture only touches
  the bar and the status text.
\<close>

definition checkStabilityAndCapture :: "env \<Rightarrow> scanner \<Rightarrow> bool \<times> scanner" where
  "checkStabilityAndCapture env st =
     (if \<not> videoReady env then (False, st)
      else case lastFrameData st of
        None \<Rightarrow> (False, st\<lparr>lastFrameData := Some (frameData env)\<rparr>)
      | Some lastFrame \<Rightarrow>
          if avgDiff (frameData env) lastFrame < MOTION_THRESHOLD
          then
            (let st1 = st\<lparr>stabilityCounter := stabilityCounter st + 1\<rparr> in
             if stabilityCounter st1 \<ge> STABILITY_THRESHOLD
             then
               (if scanState st1 = PAUSED_DUPLICATE
                then (False, st1\<lparr>stabilityCounter := STABILITY_THRESHOLD\<rparr>)
                else (True, (captureAndAnalyze env st1)
                              \<lparr>stabilityCounter := 0, lastFrameData := Some (frameData env)\<rparr>))
             else (False, st1\<lparr>lastFrameData := Some (frameData env)\<rparr>))
          else
            (let st1 = st\<lparr>stabilityCounter := 0\<rparr>;
                 st2 = (if scanState st1 = PAUSED_DUPLICATE \<or> duplicateCount st1 > 0
                        then (if scanState st1 = PAUSED_DUPLICATE
                              then snd (transitionTo SCANNING st1) else st1)
                               \<lparr>duplicateCount := 0, lastResultFingerprint := None\<rparr>
                        else st1)
             in (False, st2\<lparr>lastFrameData := Some (frameData env)\<rparr>)))"

text \<open>\<^verbatim>\<open>scanLoop\<close>, one animation frame.\<close>

definition scanLoop :: "env \<Rightarrow> scanner \<Rightarrow> bool \<times> scanner" where
  "scanLoop env st =
     (if scanState st \<noteq> SCANNING \<and> scanState st \<noteq> PAUSED_DUPLICATE then (False, st)
      else
        let st1 = st\<lparr>scanFrameCount := scanFrameCount st + 1\<rparr> in
        if scanState st1 = PAUSED_DUPLICATE \<and> scanFrameCount st1 mod 15 \<noteq> 0
        then (False, requestScanLoop st1)
        else (fst (checkStabilityAndCapture env st1),
              requestScanLoop (snd (checkStabilityAndCapture env st1))))"

text \<open>A sequence of animation frames, each with what the page shows at that moment;
  the number counts the stable events.\<close>

fun scanFrames :: "env list \<Rightarrow> scanner \<Rightarrow> nat \<times> scanner" where
  "scanFrames [] st = (0, st)"
| "scanFrames (env # envs) st =
     (let r = scanLoop env st; rest = scanFrames envs (snd r)
      in ((if fst r then 1 else 0) + fst rest, snd rest))"

subsection \<open>Retry and cooldown\<close>

text \<open>\<^verbatim>\<open>scheduleRetry\<close>; \<open>random env\<close> is the value of \<^verbatim>\<open>Math.random()\<close>,
  a number in \<open>[0, 1)\<close>.\<close>

definition scheduleRetry :: "env \<Rightarrow> scanner \<Rightarrow> scanner" where
  "scheduleRetry env st =
     (if scanState st \<noteq> PAUSED_ERROR then st
      else
        let n = consecutiveErrorCount st + 1;
            jitter = 75 / 100 + random env * (5 / 10);
            delay = min (RETRY_BASE_DELAY_MS * 2 ^ (n - 1) * jitter) RETRY_MAX_DELAY_MS
        in st\<lparr>consecutiveErrorCount := n,
               retryTimerId := Some (nextHandle st),
               nextHandle := nextHandle st + 1,
               retryDelay := Some delay\<rparr>)"

text \<open>The callback of the retry timer.\<close>

definition retryTimerFired :: "scanner \<Rightarrow> scanner" where
  "retryTimerFired st =
     (let st1 = st\<lparr>retryTimerId := None\<rparr> in
      if scanState st1 = PAUSED_ERROR
      then requestScanLoop (snd (transitionTo SCANNING st1))
      else st1)"

definition startCooldownCountdown :: "env \<Rightarrow> int \<Rightarrow> scanner \<Rightarrow> scanner" where
  "startCooldownCountdown env seconds st =
     (let st1 = stopCooldownCountdown env st in
      st1\<lparr>cooldownRemaining := seconds,
           cooldownTimerId := Some (nextHandle st1),
           nextHandle := nextHandle st1 + 1\<rparr>)"

text \<open>The callback of the one-second interval.\<close>

definition cooldownTick :: "env \<Rightarrow> scanner \<Rightarrow> scanner" where
  "cooldownTick env st =
     (let st1 = st\<lparr>cooldownRemaining := cooldownRemaining st - 1\<rparr> in
      if cooldownRemaining st1 \<le> 0 then stopCooldownCountdown env st1 else st1)"

subsection \<open>Result fingerprints\<close>

text \<open>A string literal of the source, as code units.\<close>

definition js :: "string \<Rightarrow> jsstring" where
  "js s = map of_char s"

text \<open>The code units that \<^verbatim>\<open>\s\<close> and \<^verbatim>\<open>trim\<close> treat as white space, and
  those that \<^verbatim>\<open>\d\<close> matches.\<close>

definition isWhiteSpace :: "nat \<Rightarrow> bool" where
  "isWhiteSpace c =
     (c = 9 \<or> c = 10 \<or> c = 11 \<or> c = 12 \<or> c = 13 \<or> c = 32 \<or> c = 160 \<or> c = 5760 \<or>
      (8192 \<le> c \<and> c \<le> 8202) \<or> c = 8232 \<or> c = 8233 \<or> c = 8239 \<or> c = 8287 \<or>
      c = 12288 \<or> c = 65279)"

definition isDigit :: "nat \<Rightarrow> bool" where
  "isDigit c = (48 \<le> c \<and> c \<le> 57)"

definition trim :: "jsstring \<Rightarrow> jsstring" where
  "trim s = rev (dropWhile isWhiteSpace (rev (dropWhile isWhiteSpace s)))"

text \<open>
  Whether the whole string matches the pattern of the source without its anchor: white
  space, one dash (the hyphen, code unit 45, or the en dash, code unit 8211), white space,
  one or more digits, a percent sign, white space. The classes that follow each other
  are disjoint, so consuming each greedily loses no match.
\<close>

definition confidenceSuffix :: "jsstring \<Rightarrow> bool" where
  "confidenceSuffix t =
     (case dropWhile isWhiteSpace t of
        [] \<Rightarrow> False
      | d # t1 \<Rightarrow>
          (d = 45 \<or> d = 8211) \<and>
          (let t2 = dropWhile isWhiteSpace t1 in
           takeWhile isDigit t2 \<noteq> [] \<and>
           (case dropWhile isDigit t2 of
              [] \<Rightarrow> False
            | p # t3 \<Rightarrow> p = 37 \<and> list_all isWhiteSpace t3)))"

text \<open>\<^verbatim>\<open>label.replace(pattern, '')\<close>: the match that starts leftmost is removed;
  the pattern is anchored at the end, so everything from there on goes.\<close>

fun stripConfidence :: "jsstring \<Rightarrow> jsstring" where
  "stripConfidence [] = []"
| "stripConfidence (c # cs) =
     (if confidenceSuffix (c # cs) then [] else c # stripConfidence cs)"

text \<open>A number in a template literal.\<close>

function decimal :: "nat \<Rightarrow> jsstring" where
  "decimal n = (if n < 10 then [48 + n] else decimal (n div 10) @ [48 + n mod 10])"
  by pat_completeness auto
termination
  by (relation "measure id") auto

declare decimal.simps [simp del]

text \<open>\<^verbatim>\<open>labels.join('|')\<close>.\<close>

fun joinBar :: "jsstring list \<Rightarrow> jsstring" where
  "joinBar [] = []"
| "joinBar [l] = l"
| "joinBar (l # m # ls) = l @ [124] @ joinBar (m # ls)"

text \<open>
  The fields of the parsed response body that the module reads. An item of \<open>data\<close> is
  represented by its \<^verbatim>\<open>label\<close> (\<open>None\<close> when the item has none); \<open>retryAfter\<close> is
  the value of the \<^verbatim>\<open>parseInt\<close> expression over the body's \<^verbatim>\<open>retry_after\<close>, the
  \<^verbatim>\<open>Retry-After\<close> header and the default.
\<close>

datatype limit_scope = Minute | Daily

record api_result =
  ok :: bool
  data :: "jsstring option list option"
  limit_type :: "limit_scope option"
  retryAfter :: int
  label_detected :: "bool option"
  label_reason :: "jsstring option"
  best_guess :: "jsstring option"

text \<open>\<^verbatim>\<open>value || ''\<close> on an optional string.\<close>

fun orEmpty :: "jsstring option \<Rightarrow> jsstring" where
  "orEmpty None = []"
| "orEmpty (Some s) = s"

text \<open>\<^verbatim>\<open>${result.label_detected}\<close>.\<close>

fun showDetected :: "bool option \<Rightarrow> jsstring" where
  "showDetected None = js ''undefined''"
| "showDetected (Some True) = js ''true''"
| "showDetected (Some False) = js ''false''"

text \<open>
  \<^verbatim>\<open>computeResultFingerprint(result)\<close>. \<^verbatim>\<open>String.prototype.toLowerCase\<close> is the
  parameter \<open>toLowerCase\<close>. \<^verbatim>\<open>sort()\<close> without a comparator orders strings by their
  code units, which is the lexicographic order on the lists.
\<close>

definition computeResultFingerprint ::
    "(jsstring \<Rightarrow> jsstring) \<Rightarrow> mode \<Rightarrow> api_result \<Rightarrow> jsstring option" where
  "computeResultFingerprint toLowerCase m result =
     (if \<not> ok result then None
      else if m = Web then
        (case best_guess result of
           None \<Rightarrow> None
         | Some g \<Rightarrow> if g = [] then None else Some g)
      else if m = Label then
        Some (js ''label:'' @ showDetected (label_detected result) @ js '':'' @
              orEmpty (label_reason result))
      else
        (case data result of
           None \<Rightarrow> None
         | Some items \<Rightarrow>
             if length items = 0 then None
             else
               let labels = sort (filter (\<lambda>l. length l > 0)
                              (map (\<lambda>item. toLowerCase (stripConfidence (trim (orEmpty item))))
                                 items))
               in if length labels = 0 then None
                  else Some (js ''n'' @ decimal (length labels) @ js '':'' @ joinBar labels)))"

text \<open>\<^verbatim>\<open>toLowerCase\<close> on strings of ASCII code units; used for concrete labels.\<close>

definition asciiLower :: "jsstring \<Rightarrow> jsstring" where
  "asciiLower s = map (\<lambda>c. if 65 \<le> c \<and> c \<le> 90 then c + 32 else c) s"

subsection \<open>The continuation of a capture\<close>

datatype fetch_failure = AbortError | RetriesExhausted | OtherFailure

text \<open>What the awaited request comes back with: \<^verbatim>\<open>fetchWithRetry\<close> throws, the body
  is not JSON, or there is a status and a parsed body.\<close>

datatype response = Threw fetch_failure | Unparsable nat | Parsed nat api_result

text \<open>\<^verbatim>\<open>if (fingerprint)\<close>: \<^verbatim>\<open>null\<close> and the empty string are falsy.\<close>

fun truthyString :: "jsstring option \<Rightarrow> bool" where
  "truthyString None = False"
| "truthyString (Some s) = (s \<noteq> [])"

text \<open>The bookkeeping of the \<^verbatim>\<open>if (result.ok)\<close> block; the boolean is
  \<^verbatim>\<open>_pendingDuplicatePause\<close>.\<close>

definition recordSuccess ::
    "(jsstring \<Rightarrow> jsstring) \<Rightarrow> submission \<Rightarrow> api_result \<Rightarrow> scanner \<Rightarrow> bool \<times> scanner" where
  "recordSuccess toLowerCase sub result st =
     (let st1 = st\<lparr>consecutiveErrorCount := 0,
                   lastSentImageHash := Some (currentHash sub),
                   apiCallCount := apiCallCount st + 1\<rparr>;
          fingerprint = computeResultFingerprint toLowerCase (currentMode st1) result;
          st2 = (if truthyString fingerprint \<and> fingerprint = lastResultFingerprint st1
                 then st1\<lparr>duplicateCount := duplicateCount st1 + 1\<rparr>
                 else st1\<lparr>duplicateCount := (if truthyString fingerprint then 1 else 0)\<rparr>);
          pending = (truthyString fingerprint \<and> fingerprint = lastResultFingerprint st1 \<and>
                     duplicateCount st2 \<ge> DUPLICATE_SKIP_COUNT st2);
          st3 = (if truthyString fingerprint
                 then st2\<lparr>lastResultFingerprint := fingerprint\<rparr> else st2)
      in (pending, st3))"

text \<open>The \<^verbatim>\<open>try\<close> block after the \<^verbatim>\<open>await\<close>, together with the \<^verbatim>\<open>catch\<close>
  block; the boolean is \<^verbatim>\<open>_pendingDuplicatePause\<close> as the \<^verbatim>\<open>finally\<close> block
  finds it.\<close>

definition handleResponse ::
    "(jsstring \<Rightarrow> jsstring) \<Rightarrow> env \<Rightarrow> submission \<Rightarrow> response \<Rightarrow> scanner \<Rightarrow> bool \<times> scanner" where
  "handleResponse toLowerCase env sub resp st =
     (case resp of
        Threw err \<Rightarrow>
          if wasStreamingScan sub
          then (False, scheduleRetry env (snd (transitionTo PAUSED_ERROR st)))
          else (False, st)
      | Unparsable status \<Rightarrow> (False, st)
      | Parsed status result \<Rightarrow>
          if status = 429 then
            (if limit_type result = Some Daily then (False, disableScanButton st)
             else (False, startCooldownCountdown env (retryAfter result)
                            (snd (transitionTo COOLDOWN st))))
          else if ok result then recordSuccess toLowerCase sub result st
          else (False, st))"

text \<open>The \<^verbatim>\<open>finally\<close> block.\<close>

definition finallyBlock :: "submission \<Rightarrow> bool \<Rightarrow> scanner \<Rightarrow> scanner" where
  "finallyBlock sub pendingDuplicatePause st =
     (if scanState st = ANALYZING then
        (if pendingDuplicatePause \<and> wasStreamingScan sub
         then requestScanLoop
                (snd (transitionTo PAUSED_DUPLICATE (snd (transitionTo SCANNING st))))
         else if \<not> isSingleShot st \<and> wasStreamingScan sub
         then (let st1 = snd (transitionTo SCANNING st) in
               st1\<lparr>continuousDelayTimerId := Some (nextHandle st1),
                    nextHandle := nextHandle st1 + 1\<rparr>)
         else snd (transitionTo IDLE st))
      else st)"

text \<open>The response of the submission \<open>sub\<close> arrives: the rest of
  \<^verbatim>\<open>captureAndAnalyze\<close> runs on the module as it is by then.\<close>

definition responseArrived ::
    "(jsstring \<Rightarrow> jsstring) \<Rightarrow> env \<Rightarrow> submission \<Rightarrow> response \<Rightarrow> scanner \<Rightarrow> scanner" where
  "responseArrived toLowerCase env sub resp st =
     (let st0 = st\<lparr>inflight := remove1 sub (inflight st)\<rparr>;
          r = handleResponse toLowerCase env sub resp st0
      in finallyBlock sub (fst r) (snd r))"

text \<open>The callback of the timer between two captures of a continuous scan.\<close>

definition continuousDelayFired :: "scanner \<Rightarrow> scanner" where
  "continuousDelayFired st =
     (let st1 = st\<lparr>continuousDelayTimerId := None\<rparr> in
      if scanState st1 \<noteq> SCANNING then st1
      else requestScanLoop (st1\<lparr>stabilityCounter := 0\<rparr>))"

subsection \<open>User actions\<close>

definition toggleScanning :: "env \<Rightarrow> scanner \<Rightarrow> scanner" where
  "toggleScanning env st =
     (if now env - lastToggleTime st < 300 then st
      else
        let st1 = st\<lparr>lastToggleTime := now env\<rparr> in
        if scanState st1 = ANALYZING then st1
        else if scanState st1 = COOLDOWN then st1\<lparr>shouldRestartAfterCooldown := True\<rparr>
        else if scanState st1 \<noteq> IDLE then stopScanning env st1
        else startScanning env st1)"

text \<open>A click on the scan button; a disabled button delivers no click.\<close>

definition clickScanButton :: "env \<Rightarrow> scanner \<Rightarrow> scanner" where
  "clickScanButton env st = (if btnScanDisabled st then st else toggleScanning env st)"

definition setMode :: "mode \<Rightarrow> scanner \<Rightarrow> scanner" where
  "setMode m st =
     (let st1 = st\<lparr>currentMode := m\<rparr>;
          st2 = (if scanState st1 = PAUSED_DUPLICATE then snd (transitionTo SCANNING st1) else st1)
      in st2\<lparr>duplicateCount := 0, lastResultFingerprint := None\<rparr>)"

definition toggleScanMode :: "scanner \<Rightarrow> scanner" where
  "toggleScanMode st = st\<lparr>isSingleShot := \<not> isSingleShot st\<rparr>"

definition resetDuplicateState :: "scanner \<Rightarrow> scanner" where
  "resetDuplicateState st = st\<lparr>duplicateCount := 0, lastResultFingerprint := None\<rparr>"

definition restoreScanMode :: "jsstring option \<Rightarrow> scanner \<Rightarrow> scanner" where
  "restoreScanMode saved st =
     (case saved of None \<Rightarrow> st | Some v \<Rightarrow> st\<lparr>isSingleShot := (v \<noteq> js ''0'')\<rparr>)"

text \<open>\<^verbatim>\<open>setDuplicateSkipCount\<close> of constants.js, and the \<^verbatim>\<open>input\<close> handler of the
  duplicate slider in app.js, which calls it.\<close>

definition setDuplicateSkipCount :: "nat \<Rightarrow> scanner \<Rightarrow> scanner" where
  "setDuplicateSkipCount val st = st\<lparr>DUPLICATE_SKIP_COUNT := val\<rparr>"

definition duplicateSliderInput :: "nat \<Rightarrow> scanner \<Rightarrow> scanner" where
  "duplicateSliderInput val st =
     (let st1 = setDuplicateSkipCount val st;
          st2 = (if scanState st1 = PAUSED_DUPLICATE then snd (transitionTo SCANNING st1) else st1)
      in resetDuplicateState st2)"

subsection \<open>Events\<close>

text \<open>
  What happens to the module over time. The page calls \<^verbatim>\<open>toggleScanning\<close> (the click
  handler of the scan button), \<^verbatim>\<open>stopScanning\<close> when the state is not \<open>IDLE\<close> (a file
  is chosen, the page is hidden), \<^verbatim>\<open>setMode\<close>, \<^verbatim>\<open>toggleScanMode\<close>,
  \<^verbatim>\<open>restoreScanMode\<close> and the slider handler; the browser runs an animation frame,
  delivers the response of a submission, or fires one of the three timers.
\<close>

datatype event =
    ScanButton env
  | StopRequest env
  | ModeButton mode
  | ScanModeButton
  | ScanModeRestored "jsstring option"
  | DuplicateSlider nat
  | AnimationFrame env
  | Response env submission response
  | RetryTimer
  | ContinuousDelayTimer
  | CooldownTimer env

fun fire :: "(jsstring \<Rightarrow> jsstring) \<Rightarrow> event \<Rightarrow> scanner \<Rightarrow> scanner" where
  "fire toLowerCase (ScanButton env) st = toggleScanning env st"
| "fire toLowerCase (StopRequest env) st = (if scanState st \<noteq> IDLE then stopScanning env st else st)"
| "fire toLowerCase (ModeButton m) st = setMode m st"
| "fire toLowerCase ScanModeButton st = toggleScanMode st"
| "fire toLowerCase (ScanModeRestored saved) st = restoreScanMode saved st"
| "fire toLowerCase (DuplicateSlider val) st = duplicateSliderInput val st"
| "fire toLowerCase (AnimationFrame env) st = snd (scanLoop env st)"
| "fire toLowerCase (Response env sub resp) st = responseArrived toLowerCase env sub resp st"
| "fire toLowerCase RetryTimer st = retryTimerFired st"
| "fire toLowerCase ContinuousDelayTimer st = continuousDelayFired st"
| "fire toLowerCase (CooldownTimer env) st = cooldownTick env st"

fun run :: "(jsstring \<Rightarrow> jsstring) \<Rightarrow> event list \<Rightarrow> scanner \<Rightarrow> scanner" where
  "run toLowerCase [] st = st"
| "run toLowerCase (e # es) st = run toLowerCase es (fire toLowerCase e st)"

text \<open>A start is queued only during a cooldown.\<close>

definition queuedOnlyInCooldown :: "scanner \<Rightarrow> bool" where
  "queuedOnlyInCooldown st = (shouldRestartAfterCooldown st \<longrightarrow> scanState st = COOLDOWN)"

subsection \<open>Concrete inputs\<close>

text \<open>A still image of width 640 is loaded; its crop hashes to mid grey.\<close>

definition stillImage :: env where
  "stillImage = \<lparr>currentSource = Image, sourceW = 640, videoReady = False,
     frameData = [], cropHash = replicate 64 128, random = 1 / 2, now = 1000\<rparr>"

text \<open>The submission that a capture of the still image leaves in flight.\<close>

definition stillSubmission :: submission where
  "stillSubmission = \<lparr>currentHash = replicate 64 128, wasStreamingScan = False\<rparr>"

text \<open>The bodies of two HTTP 429 responses, minute-scoped with a retry hint of 12
  seconds and day-scoped.\<close>

definition minuteLimit :: api_result where
  "minuteLimit = \<lparr>ok = False, data = Some [], limit_type = Some Minute, retryAfter = 12,
     label_detected = None, label_reason = None, best_guess = None\<rparr>"

definition dailyLimit :: api_result where
  "dailyLimit = \<lparr>ok = False, data = Some [], limit_type = Some Daily, retryAfter = 10,
     label_detected = None, label_reason = None, best_guess = None\<rparr>"

text \<open>A scan of the still image has been started and its request is in flight.\<close>

definition analyzingStill :: scanner where
  "analyzingStill = startScanning stillImage initial"

text \<open>The request came back with the minute-scoped rejection, and during the cooldown
  \<^verbatim>\<open>toggleScanning\<close> was called, which queues a start.\<close>

definition cooldownWithQueuedStart :: scanner where
  "cooldownWithQueuedStart =
     toggleScanning stillImage
       (responseArrived asciiLower stillImage stillSubmission (Parsed 429 minuteLimit)
          analyzingStill)"

subsection \<open>The specification's wording of derived quantities\<close>

text \<open>The similarity of two 64-byte hashes as the specification writes it:
  \<open>1 - (\<Sum>|a\<^sub>i - b\<^sub>i|) / (N\<^sup>2 * 255)\<close> with \<open>N = 8\<close>.\<close>

definition hashSimilaritySpec :: "nat list \<Rightarrow> nat list \<Rightarrow> real" where
  "hashSimilaritySpec a b =
     1 - real_of_int (\<Sum>i<64. \<bar>int (a ! i) - int (b ! i)\<bar>) / (64 * 255)"

text \<open>A response that counts as a successful submission: it has a body, the status is
  not 429, and the body says \<^verbatim>\<open>ok: true\<close>.\<close>

fun accepted :: "response \<Rightarrow> bool" where
  "accepted (Threw err) = False"
| "accepted (Unparsable status) = False"
| "accepted (Parsed status result) = (status \<noteq> 429 \<and> ok result)"

text \<open>The retry delay as the specification writes it:
  \<open>min(base * 2^(n - 1) * jitter, maxDelay)\<close>.\<close>

definition retryDelaySpec :: "real \<Rightarrow> real \<Rightarrow> nat \<Rightarrow> real \<Rightarrow> real" where
  "retryDelaySpec base maxDelay n jitter = min (base * 2 ^ (n - 1) * jitter) maxDelay"

text \<open>The motion magnitude as the specification writes it: for each pixel the absolute
  differences of the three colour channels, summed over all pixels and divided by the
  pixel count.\<close>

definition pixelDiff :: "nat list \<Rightarrow> nat list \<Rightarrow> nat \<Rightarrow> int" where
  "pixelDiff cur prev p =
     \<bar>int (cur ! (4 * p)) - int (prev ! (4 * p))\<bar> +
     \<bar>int (cur ! (4 * p + 1)) - int (prev ! (4 * p + 1))\<bar> +
     \<bar>int (cur ! (4 * p + 2)) - int (prev ! (4 * p + 2))\<bar>"

definition avgDiffSpec :: "nat list \<Rightarrow> nat list \<Rightarrow> real" where
  "avgDiffSpec cur prev =
     real_of_int (\<Sum>p<MOTION_CANVAS_WIDTH * MOTION_CANVAS_HEIGHT. pixelDiff cur prev p) /
     real (MOTION_CANVAS_WIDTH * MOTION_CANVAS_HEIGHT)"

text \<open>A run of consecutive frame pairs below the motion threshold: every frame is
  available and differs from its predecessor (the first one from \<open>prev\<close>) by less than
  \<open>MOTION_THRESHOLD\<close>.\<close>

fun stableRun :: "nat list \<Rightarrow> env list \<Rightarrow> bool" where
  "stableRun prev [] = True"
| "stableRun prev (e # es) =
     (videoReady e \<and> avgDiff (frameData e) prev < MOTION_THRESHOLD \<and> stableRun (frameData e) es)"

text \<open>Two uniform frames of the motion canvas, and the camera looking at a uniformly
  grey scene whose crop hashes to \<open>100\<close> in every cell.\<close>

definition greyFrame :: "nat list" where
  "greyFrame = replicate (4 * (MOTION_CANVAS_WIDTH * MOTION_CANVAS_HEIGHT)) 100"

definition lightFrame :: "nat list" where
  "lightFrame = replicate (4 * (MOTION_CANVAS_WIDTH * MOTION_CANVAS_HEIGHT)) 200"

definition greyScene :: env where
  "greyScene = \<lparr>currentSource = Camera, sourceW = 1280, videoReady = True,
     frameData = greyFrame, cropHash = replicate 64 100, random = 1 / 2, now = 1000\<rparr>"

text \<open>A continuous camera scan of the grey scene is running; the crop sent last was
  accepted, and the reference frame is the grey one.\<close>

definition watchingGrey :: scanner where
  "watchingGrey = initial\<lparr>scanState := SCANNING, isSingleShot := False,
     lastSentImageHash := Some (replicate 64 100), lastFrameData := Some greyFrame\<rparr>"

text \<open>The camera turned to a lighter scene, successful responses that report the given
  labels, and the submission that a capture of the grey scene leaves in flight.\<close>

definition lightScene :: env where
  "lightScene = greyScene\<lparr>frameData := lightFrame\<rparr>"

definition labelled :: "string list \<Rightarrow> api_result" where
  "labelled ls = \<lparr>ok = True, data = Some (map (\<lambda>l. Some (js l)) ls), limit_type = None,
     retryAfter = 10, label_detected = None, label_reason = None, best_guess = None\<rparr>"

definition appleBody :: api_result where
  "appleBody = labelled [''Apple - 95%'']"

definition cameraSubmission :: submission where
  "cameraSubmission = \<lparr>currentHash = replicate 64 100, wasStreamingScan = True\<rparr>"





text \<open>
  A continuous camera scan of the grey scene from the start: the page has just loaded,
  the scan mode is switched to continuous and the scan button is clicked; the first frame
  becomes the reference frame, twenty more frames show no motion, and the capture of the
  twentieth is submitted; the response is a success without items; the delay between two
  captures runs out.
\<close>

definition greySession :: scanner where
  "greySession = run asciiLower
     ([ScanModeButton, ScanButton greyScene] @ map AnimationFrame (replicate 21 greyScene) @
      [Response greyScene cameraSubmission (Parsed 200 (labelled [])), ContinuousDelayTimer])
     initial"

section \<open>Properties\<close>

lemma scanState_syncUI [simp]: "scanState (syncUI s st) = scanState st"
  by (cases s) simp_all

text \<open>
  Claim C1. For every current state and every target, \<^verbatim>\<open>transitionTo(target)\<close>
  returns success and leaves the module as it is when the target is the current state;
  returns failure and leaves the state (and every other field but the console, which gets
  the warning) unchanged when the target is not in the table's list for the current state;
  and otherwise commits the target and returns success. From \<open>IDLE\<close> the target
  \<open>ANALYZING\<close> is rejected and the state stays \<open>IDLE\<close>.
\<close>

theorem transitionTo_cases:
  "(target = scanState st \<longrightarrow> transitionTo target st = (True, st)) \<and>
   (target \<noteq> scanState st \<and> target \<notin> set (SCAN_TRANSITIONS (scanState st)) \<longrightarrow>
      fst (transitionTo target st) = False \<and>
      scanState (snd (transitionTo target st)) = scanState st \<and>
      snd (transitionTo target st) =
        st\<lparr>console := console st @ [Rejected (scanState st) target]\<rparr>) \<and>
   (target \<noteq> scanState st \<and> target \<in> set (SCAN_TRANSITIONS (scanState st)) \<longrightarrow>
      fst (transitionTo target st) = True \<and>
      scanState (snd (transitionTo target st)) = target) \<and>
   (scanState st = IDLE \<longrightarrow>
      fst (transitionTo ANALYZING st) = False \<and>
      scanState (snd (transitionTo ANALYZING st)) = IDLE)"
  by (simp add: transitionTo_def)

theorem transitionTo_cases_witness:
  "transitionTo IDLE initial = (True, initial) \<and>
   fst (transitionTo ANALYZING initial) = False \<and>
   scanState (snd (transitionTo ANALYZING initial)) = IDLE \<and>
   fst (transitionTo SCANNING initial) = True \<and>
   scanState (snd (transitionTo SCANNING initial)) = SCANNING"
  using transitionTo_cases [of IDLE initial] transitionTo_cases [of ANALYZING initial]
    transitionTo_cases [of SCANNING initial]
  by (simp add: initial_def)

subsection \<open>Basic facts\<close>

lemmas run_defs = initial_def stillImage_def stillSubmission_def minuteLimit_def dailyLimit_def
  analyzingStill_def cooldownWithQueuedStart_def
  startScanning.simps captureAndAnalyze.simps stopScanning.simps stopCooldownCountdown.simps
  transitionTo_def isApiLimitReached_def ENFORCE_CLIENT_DAILY_LIMIT_def
  cancelScanLoop_def cancelRetryTimer_def cancelContinuousDelay_def cancelCooldownTimer_def
  requestScanLoop_def responseArrived_def handleResponse_def finallyBlock_def
  startCooldownCountdown_def toggleScanning_def clickScanButton_def disableScanButton_def Let_def
  compareImageHash_def

lemma isApiLimitReached_False [simp]: "isApiLimitReached st = False"
  by (simp add: isApiLimitReached_def ENFORCE_CLIENT_DAILY_LIMIT_def)

lemma syncUI_eq: "syncUI s st = st\<lparr>btnScanDisabled := (s = ANALYZING \<or> s = COOLDOWN)\<rparr>"
  by (cases s) simp_all

lemma transitionTo_snd:
  "snd (transitionTo t st) =
     (if scanState st = t then st
      else if t \<notin> set (SCAN_TRANSITIONS (scanState st))
      then st\<lparr>console := console st @ [Rejected (scanState st) t]\<rparr>
      else st\<lparr>scanState := t, console := console st @ [Committed (scanState st) t],
              btnScanDisabled := (t = ANALYZING \<or> t = COOLDOWN)\<rparr>)"
  by (simp add: transitionTo_def syncUI_eq)

lemma transitionTo_fields [simp]:
  "lastSentImageHash (snd (transitionTo t st)) = lastSentImageHash st"
  "shouldRestartAfterCooldown (snd (transitionTo t st)) = shouldRestartAfterCooldown st"
  "inflight (snd (transitionTo t st)) = inflight st"
  "isSingleShot (snd (transitionTo t st)) = isSingleShot st"
  "cooldownTimerId (snd (transitionTo t st)) = cooldownTimerId st"
  "consecutiveErrorCount (snd (transitionTo t st)) = consecutiveErrorCount st"
  "stabilityCounter (snd (transitionTo t st)) = stabilityCounter st"
  "lastFrameData (snd (transitionTo t st)) = lastFrameData st"
  "nextHandle (snd (transitionTo t st)) = nextHandle st"
  "currentMode (snd (transitionTo t st)) = currentMode st"
  "duplicateCount (snd (transitionTo t st)) = duplicateCount st"
  "lastResultFingerprint (snd (transitionTo t st)) = lastResultFingerprint st"
  "DUPLICATE_SKIP_COUNT (snd (transitionTo t st)) = DUPLICATE_SKIP_COUNT st"
  by (simp_all add: transitionTo_snd)

lemma transitionTo_allowed:
  "t \<in> set (SCAN_TRANSITIONS (scanState st)) \<Longrightarrow> scanState (snd (transitionTo t st)) = t"
  by (simp add: transitionTo_snd)

lemma stopCooldownCountdown_plain:
  "\<not> shouldRestartAfterCooldown st \<Longrightarrow>
   stopCooldownCountdown env st =
     (let st1 = (cancelCooldownTimer st)\<lparr>cooldownRemaining := 0\<rparr>
      in if cooldownTimerId st \<noteq> None \<and> scanState st = COOLDOWN
         then st1\<lparr>scanState := IDLE, btnScanDisabled := False\<rparr> else st1)"
  by (simp add: stopCooldownCountdown.simps cancelCooldownTimer_def syncUI_eq Let_def)

lemma stopScanning_plain:
  assumes "\<not> shouldRestartAfterCooldown st"
  shows "scanState (stopScanning env st) = IDLE"
    and "lastSentImageHash (stopScanning env st) = lastSentImageHash st"
    and "inflight (stopScanning env st) = inflight st"
    and "shouldRestartAfterCooldown (stopScanning env st) = False"
    and "cooldownTimerId (stopScanning env st) = (if truthy (cooldownTimerId st) then None else cooldownTimerId st)"
    and "retryTimerId (stopScanning env st) = (if truthy (retryTimerId st) then None else retryTimerId st)"
    and "continuousDelayTimerId (stopScanning env st) = (if truthy (continuousDelayTimerId st) then None else continuousDelayTimerId st)"
    and "scanRafId (stopScanning env st) = (if truthy (scanRafId st) then None else scanRafId st)"
  using assms
  by (simp_all add: stopScanning.simps stopCooldownCountdown_plain syncUI_eq Let_def
      cancelScanLoop_def cancelRetryTimer_def cancelContinuousDelay_def cancelCooldownTimer_def)

lemma hashDiffLoop_sum:
  "i \<le> length a \<Longrightarrow>
   int (hashDiffLoop a b i acc) = int acc + (\<Sum>k = i..<length a. \<bar>int (a ! k) - int (b ! k)\<bar>)"
proof (induction a b i acc rule: hashDiffLoop.induct)
  case (1 hashA hashB i totalDiff)
  show ?case
  proof (cases "i < length hashA")
    case True
    then have "int (hashDiffLoop hashA hashB i totalDiff) =
        int (hashDiffLoop hashA hashB (i + 1) (totalDiff + nat \<bar>int (hashA ! i) - int (hashB ! i)\<bar>))"
      by (subst hashDiffLoop.simps) simp
    also have "\<dots> = int (totalDiff + nat \<bar>int (hashA ! i) - int (hashB ! i)\<bar>) +
        (\<Sum>k = i + 1..<length hashA. \<bar>int (hashA ! k) - int (hashB ! k)\<bar>)"
      using True "1.IH" by simp
    also have "\<dots> = int totalDiff + (\<Sum>k = i..<length hashA. \<bar>int (hashA ! k) - int (hashB ! k)\<bar>)"
      using True by (simp add: sum.atLeast_Suc_lessThan)
    finally show ?thesis .
  next
    case False
    with "1.prems" have "i = length hashA" by simp
    then show ?thesis by (subst hashDiffLoop.simps) simp
  qed
qed

lemma compareImageHash_spec:
  "length a = 64 \<Longrightarrow> length b = 64 \<Longrightarrow>
   compareImageHash (Some a) (Some b) = Some (hashSimilaritySpec a b)"
proof -
  assume la: "length a = 64" and lb: "length b = 64"
  have "int (hashDiffLoop a b 0 0) = (\<Sum>k = 0..<64. \<bar>int (a ! k) - int (b ! k)\<bar>)"
    using hashDiffLoop_sum [of 0 a b 0] la by simp
  then have "real (hashDiffLoop a b 0 0) = real_of_int (\<Sum>k<64. \<bar>int (a ! k) - int (b ! k)\<bar>)"
    by (metis atLeast0LessThan of_int_of_nat_eq)
  then show ?thesis
    using la lb by (simp add: compareImageHash_def hashSimilaritySpec_def)
qed

subsection \<open>Two reachable states\<close>

lemma analyzingStill_eq:
  "analyzingStill = initial\<lparr>scanState := ANALYZING, btnScanDisabled := True,
      console := [Committed IDLE SCANNING, Committed SCANNING ANALYZING],
      inflight := [stillSubmission]\<rparr>"
  by (simp add: run_defs)


subsection \<open>The transition from ANALYZING to PAUSED_DUPLICATE\<close>


subsection \<open>Stopping\<close>


subsection \<open>The day-scoped quota rejection\<close>

text \<open>
  Claim C9 says that a day-scoped rejection (HTTP 429 with \<^verbatim>\<open>limit_type\<close> "daily")
  disables further starts for the rest of the session. The handler disables the scan
  button and returns; the \<^verbatim>\<open>finally\<close> block then leaves \<open>ANALYZING\<close> for
  \<open>IDLE\<close>, and the \<^verbatim>\<open>syncUI\<close> of that transition enables the button again. No
  cooldown timer is started, but the next click starts a scan and sends a request.
\<close>

theorem daily_rejection_leaves_button_enabled:
  "scanState analyzingStill = ANALYZING \<and>
   btnScanDisabled (responseArrived asciiLower stillImage stillSubmission
                      (Parsed 429 dailyLimit) analyzingStill) = False \<and>
   scanState (responseArrived asciiLower stillImage stillSubmission
                (Parsed 429 dailyLimit) analyzingStill) = IDLE \<and>
   cooldownTimerId (responseArrived asciiLower stillImage stillSubmission
                      (Parsed 429 dailyLimit) analyzingStill) = None \<and>
   scanState (clickScanButton (stillImage\<lparr>now := 5000\<rparr>)
      (responseArrived asciiLower stillImage stillSubmission
         (Parsed 429 dailyLimit) analyzingStill)) = ANALYZING"
  unfolding analyzingStill_eq by (simp add: run_defs)


subsection \<open>The capture gate\<close>

lemma captureAndAnalyze_lastSent:
  "\<not> shouldRestartAfterCooldown st \<Longrightarrow>
   lastSentImageHash (captureAndAnalyze env st) = lastSentImageHash st"
  by (simp add: captureAndAnalyze.simps Let_def stopScanning_plain requestScanLoop_def
      cancelScanLoop_def)

lemma captureAndAnalyze_skip_camera:
  assumes "sourceW env \<noteq> 0" "scanState st \<noteq> ANALYZING"
    and "lastSentImageHash st = Some prior"
    and "atLeastThreshold (compareImageHash (Some (cropHash env)) (Some prior))"
    and "\<not> isSingleShot st" "currentSource env = Camera"
  shows "scanState (captureAndAnalyze env st) = SCANNING"
    and "inflight (captureAndAnalyze env st) = inflight st"
    and "stabilityCounter (captureAndAnalyze env st) = 0"
    and "lastFrameData (captureAndAnalyze env st) = None"
  using assms
  by (cases "scanState st";
      simp add: captureAndAnalyze.simps Let_def requestScanLoop_def transitionTo_snd)+

lemma captureAndAnalyze_skip_camera_eq:
  assumes "sourceW env \<noteq> 0" "scanState st = SCANNING"
    and "lastSentImageHash st = Some prior"
    and "atLeastThreshold (compareImageHash (Some (cropHash env)) (Some prior))"
    and "\<not> isSingleShot st" "currentSource env = Camera"
  shows "captureAndAnalyze env st =
    st\<lparr>btnScanDisabled := False,
       console := console st @ [Committed SCANNING ANALYZING, Committed ANALYZING SCANNING],
       stabilityCounter := 0, lastFrameData := None,
       scanRafId := Some (nextHandle st), nextHandle := nextHandle st + 1\<rparr>"
  using assms
  by (simp add: captureAndAnalyze.simps Let_def requestScanLoop_def transitionTo_snd)

lemma captureAndAnalyze_skip_stop:
  assumes "sourceW env \<noteq> 0" "scanState st \<noteq> ANALYZING"
    and "lastSentImageHash st = Some prior"
    and "atLeastThreshold (compareImageHash (Some (cropHash env)) (Some prior))"
    and "isSingleShot st \<or> currentSource env \<noteq> Camera"
    and "\<not> shouldRestartAfterCooldown st"
  shows "scanState (captureAndAnalyze env st) = IDLE"
    and "inflight (captureAndAnalyze env st) = inflight st"
  using assms
  by (auto simp add: captureAndAnalyze.simps Let_def stopScanning_plain)

lemma captureAndAnalyze_submit:
  assumes "sourceW env \<noteq> 0" "scanState st \<noteq> ANALYZING"
    and "lastSentImageHash st = None \<or>
         \<not> atLeastThreshold (compareImageHash (Some (cropHash env)) (lastSentImageHash st))"
  shows "inflight (captureAndAnalyze env st) =
           inflight st @ [\<lparr>currentHash = cropHash env,
                           wasStreamingScan = (currentSource env = Camera)\<rparr>]"
    and "scanState st = SCANNING \<Longrightarrow> scanState (captureAndAnalyze env st) = ANALYZING"
    and "scanRafId (captureAndAnalyze env st) = (if truthy (scanRafId st) then None else scanRafId st)"
  using assms
  by (auto simp add: captureAndAnalyze.simps Let_def cancelScanLoop_def transitionTo_snd)

lemma uniform_delta_similarity:
  assumes "\<forall>i<64. \<bar>int (a ! i) - int (b ! i)\<bar> = 5"
  shows "hashSimilaritySpec a b = 50 / 51"
proof -
  have "(\<Sum>i<64. \<bar>int (a ! i) - int (b ! i)\<bar>) = (\<Sum>i<(64::nat). 5)"
    using assms by (intro sum.cong) auto
  then show ?thesis by (simp add: hashSimilaritySpec_def)
qed

lemma gate_equal_hashes:
  "atLeastThreshold (compareImageHash (Some (replicate 64 100)) (Some (replicate 64 100)))"
proof -
  have "hashSimilaritySpec (replicate 64 100) (replicate 64 100) = 1"
    by (simp add: hashSimilaritySpec_def)
  then show ?thesis
    by (simp add: compareImageHash_spec IMAGE_HASH_THRESHOLD_def)
qed

subsection \<open>The response handler\<close>

lemma scheduleRetry_fields [simp]:
  "lastSentImageHash (scheduleRetry env st) = lastSentImageHash st"
  "scanState (scheduleRetry env st) = scanState st"
  by (simp_all add: scheduleRetry_def Let_def)

lemma startCooldownCountdown_lastSent:
  "\<not> shouldRestartAfterCooldown st \<Longrightarrow>
   lastSentImageHash (startCooldownCountdown env seconds st) = lastSentImageHash st"
  by (simp add: startCooldownCountdown_def stopCooldownCountdown_plain Let_def
      cancelCooldownTimer_def)

lemma finallyBlock_lastSent [simp]:
  "lastSentImageHash (finallyBlock sub pending st) = lastSentImageHash st"
  by (simp add: finallyBlock_def requestScanLoop_def Let_def)

lemma recordSuccess_lastSent [simp]:
  "lastSentImageHash (snd (recordSuccess lower sub result st)) = Some (currentHash sub)"
  by (simp add: recordSuccess_def Let_def)

lemma handleResponse_lastSent:
  "\<not> shouldRestartAfterCooldown st \<Longrightarrow>
   lastSentImageHash (snd (handleResponse lower env sub resp st)) =
     (if accepted resp then Some (currentHash sub) else lastSentImageHash st)"
  by (cases resp)
     (simp_all add: handleResponse_def startCooldownCountdown_lastSent disableScanButton_def)

lemma responseArrived_failure:
  assumes "scanState st = ANALYZING" "wasStreamingScan sub"
  shows "scanState (responseArrived lower env sub (Threw err) st) = PAUSED_ERROR"
    and "consecutiveErrorCount (responseArrived lower env sub (Threw err) st) =
           consecutiveErrorCount st + 1"
    and "retryDelay (responseArrived lower env sub (Threw err) st) =
           Some (retryDelaySpec RETRY_BASE_DELAY_MS RETRY_MAX_DELAY_MS
                   (consecutiveErrorCount st + 1) (3 / 4 + random env / 2))"
    and "retryTimerId (responseArrived lower env sub (Threw err) st) = Some (nextHandle st)"
  using assms
  by (simp_all add: responseArrived_def handleResponse_def finallyBlock_def scheduleRetry_def
      transitionTo_snd retryDelaySpec_def Let_def)

subsection \<open>Frame differences and stable runs\<close>

lemma frameDiffLoop_sum:
  "length cur = 4 * n \<Longrightarrow> k \<le> n \<Longrightarrow>
   int (frameDiffLoop cur prev (4 * k) acc) = int acc + (\<Sum>p = k..<n. pixelDiff cur prev p)"
proof (induction "n - k" arbitrary: k acc)
  case 0
  then have "k = n" by simp
  with 0 show ?case by (subst frameDiffLoop.simps) simp
next
  case (Suc d)
  then have lt: "k < n" by simp
  then have "4 * k < length cur" using Suc.prems by simp
  then have "int (frameDiffLoop cur prev (4 * k) acc) =
      int (frameDiffLoop cur prev (4 * (k + 1))
        (acc + nat \<bar>int (cur ! (4 * k)) - int (prev ! (4 * k))\<bar>
             + nat \<bar>int (cur ! (4 * k + 1)) - int (prev ! (4 * k + 1))\<bar>
             + nat \<bar>int (cur ! (4 * k + 2)) - int (prev ! (4 * k + 2))\<bar>))"
    by (subst frameDiffLoop.simps) (simp add: algebra_simps)
  also have "\<dots> = int acc + pixelDiff cur prev k + (\<Sum>p = k + 1..<n. pixelDiff cur prev p)"
    using Suc.hyps(1) [of "k + 1"] Suc.hyps(2) Suc.prems lt
    by (simp add: pixelDiff_def)
  also have "\<dots> = int acc + (\<Sum>p = k..<n. pixelDiff cur prev p)"
    using lt by (simp add: sum.atLeast_Suc_lessThan)
  finally show ?case .
qed

lemma avgDiff_spec:
  assumes "length cur = 4 * (MOTION_CANVAS_WIDTH * MOTION_CANVAS_HEIGHT)"
  shows "avgDiff cur prev = avgDiffSpec cur prev"
proof -
  let ?n = "MOTION_CANVAS_WIDTH * MOTION_CANVAS_HEIGHT"
  have "int (frameDiffLoop cur prev (4 * 0) 0) = int 0 + (\<Sum>p = 0..<?n. pixelDiff cur prev p)"
    using assms by (rule frameDiffLoop_sum) simp
  then have "int (frameDiffLoop cur prev 0 0) = (\<Sum>p<?n. pixelDiff cur prev p)"
    by (simp add: atLeast0LessThan)
  then have "real_of_int (int (frameDiffLoop cur prev 0 0)) =
      real_of_int (\<Sum>p<?n. pixelDiff cur prev p)"
    by (rule arg_cong)
  then have "real (frameDiffLoop cur prev 0 0) = real_of_int (\<Sum>p<?n. pixelDiff cur prev p)"
    by simp
  then show ?thesis
    by (simp only: avgDiff_def avgDiffSpec_def)
qed

lemma frameDiffLoop_equal: "prev = cur \<Longrightarrow> frameDiffLoop cur prev i acc = acc"
proof (induction cur prev i acc rule: frameDiffLoop.induct)
  case (1 cur prev i diff)
  then show ?case by (subst frameDiffLoop.simps) simp
qed

lemma frameDiffLoop_same: "frameDiffLoop cur cur i acc = acc"
  by (simp add: frameDiffLoop_equal)

lemma avgDiff_same: "avgDiff cur cur = 0"
  by (simp add: avgDiff_def frameDiffLoop_same)

lemma scanLoop_stable_below:
  assumes "scanState st = SCANNING" "lastFrameData st = Some prev" "videoReady e"
    "avgDiff (frameData e) prev < MOTION_THRESHOLD" "stabilityCounter st + 1 < STABILITY_THRESHOLD"
  shows "scanLoop e st =
    (False, st\<lparr>scanFrameCount := scanFrameCount st + 1,
               stabilityCounter := stabilityCounter st + 1,
               lastFrameData := Some (frameData e),
               scanRafId := Some (nextHandle st),
               nextHandle := nextHandle st + 1\<rparr>)"
  using assms
  by (simp add: scanLoop_def checkStabilityAndCapture_def Let_def requestScanLoop_def)

lemma scanLoop_stable_fires:
  assumes "scanState st = SCANNING" "lastFrameData st = Some prev" "videoReady e"
    "avgDiff (frameData e) prev < MOTION_THRESHOLD" "stabilityCounter st + 1 \<ge> STABILITY_THRESHOLD"
  shows "scanLoop e st =
    (True, requestScanLoop
       ((captureAndAnalyze e (st\<lparr>scanFrameCount := scanFrameCount st + 1,
                                    stabilityCounter := stabilityCounter st + 1\<rparr>))
          \<lparr>stabilityCounter := 0, lastFrameData := Some (frameData e)\<rparr>))"
  using assms
  by (simp add: scanLoop_def checkStabilityAndCapture_def Let_def)

lemma checkStability_motion:
  assumes "lastFrameData st = Some prev" "videoReady e"
    "avgDiff (frameData e) prev \<ge> MOTION_THRESHOLD"
  shows "fst (checkStabilityAndCapture e st) = False"
    and "stabilityCounter (snd (checkStabilityAndCapture e st)) = 0"
  using assms
  by (simp_all add: checkStabilityAndCapture_def Let_def)

lemma scanFrames_append:
  "scanFrames (es @ fs) st =
     (fst (scanFrames es st) + fst (scanFrames fs (snd (scanFrames es st))),
      snd (scanFrames fs (snd (scanFrames es st))))"
  by (induction es arbitrary: st) (simp_all add: Let_def)

lemma scanFrames_stable_below:
  assumes "scanState st = SCANNING" "lastFrameData st = Some prev" "stableRun prev es"
    "stabilityCounter st + length es < STABILITY_THRESHOLD"
  shows "scanFrames es st =
    (0, if es = [] then st else
        st\<lparr>scanFrameCount := scanFrameCount st + length es,
           stabilityCounter := stabilityCounter st + length es,
           lastFrameData := Some (frameData (last es)),
           scanRafId := Some (nextHandle st + length es - 1),
           nextHandle := nextHandle st + length es\<rparr>)"
  using assms
proof (induction es arbitrary: st prev)
  case Nil
  then show ?case by simp
next
  case (Cons e es)
  let ?st1 = "st\<lparr>scanFrameCount := scanFrameCount st + 1,
               stabilityCounter := stabilityCounter st + 1,
               lastFrameData := Some (frameData e),
               scanRafId := Some (nextHandle st),
               nextHandle := nextHandle st + 1\<rparr>"
  have step: "scanLoop e st = (False, ?st1)"
    using Cons.prems scanLoop_stable_below [of st prev e] by simp
  have rest: "scanFrames es ?st1 =
      (0, if es = [] then ?st1 else
        ?st1\<lparr>scanFrameCount := scanFrameCount ?st1 + length es,
           stabilityCounter := stabilityCounter ?st1 + length es,
           lastFrameData := Some (frameData (last es)),
           scanRafId := Some (nextHandle ?st1 + length es - 1),
           nextHandle := nextHandle ?st1 + length es\<rparr>)"
    by (rule Cons.IH [of ?st1 "frameData e"]) (use Cons.prems in simp_all)
  show ?case
    using rest by (simp add: step Let_def)
qed

lemma stableRun_append:
  "stableRun prev (es @ fs) \<longleftrightarrow>
     stableRun prev es \<and> stableRun (if es = [] then prev else frameData (last es)) fs"
  by (induction es arbitrary: prev) auto

lemma stableRun_replicate:
  "videoReady e \<Longrightarrow> stableRun (frameData e) (replicate n e)"
  by (induction n) (simp_all add: avgDiff_same MOTION_THRESHOLD_def)

lemma greyScene_run: "stableRun greyFrame (replicate n greyScene)"
  using stableRun_replicate [of greyScene n] by (simp add: greyScene_def)

lemma stable_threshold_reached:
  assumes "scanState st = SCANNING" "stabilityCounter st = 0" "lastFrameData st = Some prev"
    "stableRun prev (es @ [e])" "length es = 19"
  shows "fst (scanFrames es st) = 0"
    and "scanLoop e (snd (scanFrames es st)) =
      (True, requestScanLoop
         ((captureAndAnalyze e
             ((snd (scanFrames es st))
                \<lparr>scanFrameCount := scanFrameCount (snd (scanFrames es st)) + 1,
                 stabilityCounter := 20\<rparr>))
            \<lparr>stabilityCounter := 0, lastFrameData := Some (frameData e)\<rparr>))"
    and "scanState (snd (scanFrames es st)) = SCANNING"
proof -
  have ne: "es \<noteq> []"
    using assms(5) by auto
  have run: "stableRun prev es" and lst: "stableRun (frameData (last es)) [e]"
    using assms(4) ne by (simp_all add: stableRun_append)
  have below: "scanFrames es st =
    (0, st\<lparr>scanFrameCount := scanFrameCount st + length es,
           stabilityCounter := stabilityCounter st + length es,
           lastFrameData := Some (frameData (last es)),
           scanRafId := Some (nextHandle st + length es - 1),
           nextHandle := nextHandle st + length es\<rparr>)"
    using scanFrames_stable_below [OF assms(1) assms(3) run] assms(2,5) ne
    by (simp add: STABILITY_THRESHOLD_def)
  show "fst (scanFrames es st) = 0" by (simp add: below)
  show "scanState (snd (scanFrames es st)) = SCANNING" by (simp add: below assms(1))
  have "scanLoop e (snd (scanFrames es st)) =
    (True, requestScanLoop
       ((captureAndAnalyze e ((snd (scanFrames es st))
            \<lparr>scanFrameCount := scanFrameCount (snd (scanFrames es st)) + 1,
             stabilityCounter := stabilityCounter (snd (scanFrames es st)) + 1\<rparr>))
          \<lparr>stabilityCounter := 0, lastFrameData := Some (frameData e)\<rparr>))"
    using lst assms(1,2,5)
    by (intro scanLoop_stable_fires [where prev = "frameData (last es)"])
       (simp_all add: below STABILITY_THRESHOLD_def)
  moreover have "stabilityCounter (snd (scanFrames es st)) + 1 = 20"
    using assms(2,5) by (simp add: below)
  ultimately show "scanLoop e (snd (scanFrames es st)) =
      (True, requestScanLoop
         ((captureAndAnalyze e
             ((snd (scanFrames es st))
                \<lparr>scanFrameCount := scanFrameCount (snd (scanFrames es st)) + 1,
                 stabilityCounter := 20\<rparr>))
            \<lparr>stabilityCounter := 0, lastFrameData := Some (frameData e)\<rparr>))"
    by simp
qed

lemma stable_prefix_silent:
  assumes "scanState st = SCANNING" "stabilityCounter st = 0" "lastFrameData st = Some prev"
    "stableRun prev es" "length es < 20"
  shows "fst (scanFrames es st) = 0"
  using scanFrames_stable_below [OF assms(1) assms(3) assms(4)] assms(2,5)
  by (simp add: STABILITY_THRESHOLD_def)

lemma stable_twenty:
  assumes "scanState st = SCANNING" "stabilityCounter st = 0" "lastFrameData st = Some prev"
    "stableRun prev (es @ [e])" "length es = 19"
  shows "fst (scanFrames (es @ [e]) st) = 1"
    and "stabilityCounter (snd (scanFrames (es @ [e]) st)) = 0"
    and "lastFrameData (snd (scanFrames (es @ [e]) st)) = Some (frameData e)"
  using stable_threshold_reached [OF assms]
  by (simp_all add: scanFrames_append Let_def requestScanLoop_def)

lemma skip_cycle:
  assumes "scanState st = SCANNING" "stabilityCounter st = 0" "lastFrameData st = Some prev"
    "stableRun prev (es @ [e])" "length es = 19"
    "\<not> isSingleShot st" "lastSentImageHash st = Some h"
    "atLeastThreshold (compareImageHash (Some (cropHash e)) (Some h))"
    "currentSource e = Camera" "sourceW e \<noteq> 0"
  shows "fst (scanFrames (es @ [e]) st) = 1"
    and "scanState (snd (scanFrames (es @ [e]) st)) = SCANNING"
    and "stabilityCounter (snd (scanFrames (es @ [e]) st)) = 0"
    and "lastFrameData (snd (scanFrames (es @ [e]) st)) = Some (frameData e)"
    and "\<not> isSingleShot (snd (scanFrames (es @ [e]) st))"
    and "lastSentImageHash (snd (scanFrames (es @ [e]) st)) = Some h"
proof -
  have ne: "es \<noteq> []" using assms(5) by auto
  have run: "stableRun prev es"
    using assms(4) by (simp add: stableRun_append)
  have below: "scanFrames es st =
    (0, st\<lparr>scanFrameCount := scanFrameCount st + length es,
           stabilityCounter := stabilityCounter st + length es,
           lastFrameData := Some (frameData (last es)),
           scanRafId := Some (nextHandle st + length es - 1),
           nextHandle := nextHandle st + length es\<rparr>)"
    using scanFrames_stable_below [OF assms(1) assms(3) run] assms(2,5) ne
    by (simp add: STABILITY_THRESHOLD_def)
  define s where "s = (snd (scanFrames es st))
                \<lparr>scanFrameCount := scanFrameCount (snd (scanFrames es st)) + 1,
                 stabilityCounter := 20\<rparr>"
  have s: "scanState s = SCANNING" "\<not> isSingleShot s" "lastSentImageHash s = Some h"
    using assms by (simp_all add: s_def below)
  have fire: "scanLoop e (snd (scanFrames es st)) =
      (True, requestScanLoop
         ((captureAndAnalyze e s)\<lparr>stabilityCounter := 0, lastFrameData := Some (frameData e)\<rparr>))"
    unfolding s_def using stable_threshold_reached(2) [OF assms(1-5)] .
  have cap: "captureAndAnalyze e s =
    s\<lparr>btnScanDisabled := False,
       console := console s @ [Committed SCANNING ANALYZING, Committed ANALYZING SCANNING],
       stabilityCounter := 0, lastFrameData := None,
       scanRafId := Some (nextHandle s), nextHandle := nextHandle s + 1\<rparr>"
    using assms(8-10) s by (intro captureAndAnalyze_skip_camera_eq [where prior = h]) simp_all
  have res: "snd (scanFrames (es @ [e]) st) =
      requestScanLoop
         ((captureAndAnalyze e s)\<lparr>stabilityCounter := 0, lastFrameData := Some (frameData e)\<rparr>)"
    by (simp add: scanFrames_append fire Let_def)
  show "fst (scanFrames (es @ [e]) st) = 1"
    using stable_twenty(1) [OF assms(1-5)] .
  show "stabilityCounter (snd (scanFrames (es @ [e]) st)) = 0"
    using stable_twenty(2) [OF assms(1-5)] .
  show "lastFrameData (snd (scanFrames (es @ [e]) st)) = Some (frameData e)"
    using stable_twenty(3) [OF assms(1-5)] .
  show "scanState (snd (scanFrames (es @ [e]) st)) = SCANNING"
    by (simp add: res cap requestScanLoop_def s)
  show "\<not> isSingleShot (snd (scanFrames (es @ [e]) st))"
    by (simp add: res cap requestScanLoop_def s)
  show "lastSentImageHash (snd (scanFrames (es @ [e]) st)) = Some h"
    by (simp add: res cap requestScanLoop_def s)
qed

subsection \<open>A scan that starts without a fingerprint\<close>









lemma stableRun_take: "stableRun prev es \<Longrightarrow> stableRun prev (take k es)"
  by (induction es arbitrary: prev k) (auto simp: take_Cons split: nat.splits)

subsection \<open>Concrete runs\<close>

lemma avgDiff_uniform:
  "avgDiff (replicate (4 * (MOTION_CANVAS_WIDTH * MOTION_CANVAS_HEIGHT)) a)
           (replicate (4 * (MOTION_CANVAS_WIDTH * MOTION_CANVAS_HEIGHT)) b) =
   3 * \<bar>real a - real b\<bar>"
proof -
  let ?n = "MOTION_CANVAS_WIDTH * MOTION_CANVAS_HEIGHT"
  have pix: "pixelDiff (replicate (4 * ?n) a) (replicate (4 * ?n) b) p = 3 * \<bar>int a - int b\<bar>"
    if "p < ?n" for p
    using that by (simp add: pixelDiff_def)
  have "(\<Sum>p<?n. pixelDiff (replicate (4 * ?n) a) (replicate (4 * ?n) b) p) =
        (\<Sum>p<?n. 3 * \<bar>int a - int b\<bar>)"
    by (intro sum.cong) (simp_all add: pix)
  then have "avgDiffSpec (replicate (4 * ?n) a) (replicate (4 * ?n) b) =
      real_of_int (int ?n * (3 * \<bar>int a - int b\<bar>)) / real ?n"
    by (simp add: avgDiffSpec_def)
  also have "\<dots> = 3 * \<bar>real a - real b\<bar>"
    by (simp add: MOTION_CANVAS_WIDTH_def MOTION_CANVAS_HEIGHT_def)
  finally show ?thesis
    by (simp add: avgDiff_spec)
qed

lemma twenty_grey: "replicate 20 greyScene = replicate 19 greyScene @ [greyScene]"
proof -
  have "replicate (Suc 19) greyScene = replicate 19 greyScene @ [greyScene]"
    by (simp only: replicate_Suc replicate_append_same)
  then show ?thesis by simp
qed

lemma watchingGrey_facts:
  "scanState watchingGrey = SCANNING" "stabilityCounter watchingGrey = 0"
  "lastFrameData watchingGrey = Some greyFrame" "\<not> isSingleShot watchingGrey"
  "lastSentImageHash watchingGrey = Some (replicate 64 100)"
  "\<not> shouldRestartAfterCooldown watchingGrey" "inflight watchingGrey = []"
  by (simp_all add: watchingGrey_def initial_def)

lemma greyScene_facts:
  "currentSource greyScene = Camera" "sourceW greyScene \<noteq> 0" "videoReady greyScene"
  "cropHash greyScene = replicate 64 100" "frameData greyScene = greyFrame"
  "random greyScene = 1 / 2"
  by (simp_all add: greyScene_def)

lemma grey_round: "stableRun greyFrame (replicate 19 greyScene @ [greyScene])"
  using greyScene_run [of 20] by (simp only: twenty_grey)

lemma grey_round_state:
  "scanState (snd (scanFrames (replicate 19 greyScene @ [greyScene]) watchingGrey)) = SCANNING"
  using skip_cycle(2) [OF watchingGrey_facts(1-3) grey_round _ watchingGrey_facts(4,5) _
      greyScene_facts(1,2)] gate_equal_hashes
  by (simp add: greyScene_facts)



subsection \<open>The queued start\<close>

text \<open>
  \<^verbatim>\<open>shouldRestartAfterCooldown\<close> is set only by \<^verbatim>\<open>toggleScanning\<close> during a
  cooldown, and whatever ends the cooldown clears it. So in every state that the module
  reaches from its initial state, a start is queued only while the state is \<open>COOLDOWN\<close>.
\<close>

lemma capture_queue_None:
  "lastSentImageHash st = None \<Longrightarrow>
   shouldRestartAfterCooldown (captureAndAnalyze env st) = shouldRestartAfterCooldown st"
  by (simp add: captureAndAnalyze.simps Let_def cancelScanLoop_def)

lemma start_queue:
  "shouldRestartAfterCooldown (startScanning env st) = shouldRestartAfterCooldown st"
  by (simp add: startScanning.simps Let_def requestScanLoop_def disableScanButton_def
      capture_queue_None)

lemma stopCooldown_queue: "\<not> shouldRestartAfterCooldown (stopCooldownCountdown env st)"
proof (cases "shouldRestartAfterCooldown st")
  case True
  then show ?thesis
    by (simp add: stopCooldownCountdown.simps Let_def start_queue cancelCooldownTimer_def
        syncUI_eq)
next
  case False
  then show ?thesis
    by (simp add: stopCooldownCountdown_plain Let_def cancelCooldownTimer_def)
qed

lemma stop_queue: "\<not> shouldRestartAfterCooldown (stopScanning env st)"
  by (simp add: stopScanning.simps Let_def stopCooldown_queue)

lemma capture_queue:
  "\<not> shouldRestartAfterCooldown st \<Longrightarrow> \<not> shouldRestartAfterCooldown (captureAndAnalyze env st)"
  by (simp add: captureAndAnalyze.simps Let_def cancelScanLoop_def requestScanLoop_def stop_queue)

lemma scanLoop_queue:
  "\<not> shouldRestartAfterCooldown st \<Longrightarrow> \<not> shouldRestartAfterCooldown (snd (scanLoop env st))"
  by (simp add: scanLoop_def checkStabilityAndCapture_def Let_def requestScanLoop_def
      capture_queue split: option.splits)

lemma toggleScanning_inv:
  "queuedOnlyInCooldown st \<Longrightarrow> queuedOnlyInCooldown (toggleScanning env st)"
  by (auto simp add: queuedOnlyInCooldown_def toggleScanning_def Let_def stop_queue start_queue)

lemma scanLoop_inv:
  "queuedOnlyInCooldown st \<Longrightarrow> queuedOnlyInCooldown (snd (scanLoop env st))"
proof (cases "shouldRestartAfterCooldown st")
  case True
  assume "queuedOnlyInCooldown st"
  with True have "scanState st = COOLDOWN" by (simp add: queuedOnlyInCooldown_def)
  then show ?thesis
    using True by (simp add: scanLoop_def queuedOnlyInCooldown_def)
next
  case False
  then show ?thesis
    using scanLoop_queue [of st env] by (simp add: queuedOnlyInCooldown_def)
qed

lemma startCooldown_queue:
  "\<not> shouldRestartAfterCooldown (startCooldownCountdown env seconds st)"
  by (simp add: startCooldownCountdown_def Let_def stopCooldown_queue)

lemma finallyBlock_inv:
  "queuedOnlyInCooldown st \<Longrightarrow> queuedOnlyInCooldown (finallyBlock sub pending st)"
  by (auto simp add: queuedOnlyInCooldown_def finallyBlock_def requestScanLoop_def Let_def)

lemma handleResponse_inv:
  "queuedOnlyInCooldown st \<Longrightarrow>
   queuedOnlyInCooldown (snd (handleResponse toLowerCase env sub resp st))"
proof (cases resp)
  case (Threw err)
  assume "queuedOnlyInCooldown st"
  then show ?thesis
    using Threw
    by (auto simp add: queuedOnlyInCooldown_def handleResponse_def scheduleRetry_def
        transitionTo_snd Let_def)
next
  case (Unparsable status)
  assume "queuedOnlyInCooldown st"
  then show ?thesis using Unparsable by (simp add: handleResponse_def)
next
  case (Parsed status result)
  assume "queuedOnlyInCooldown st"
  then show ?thesis
    using Parsed startCooldown_queue
    by (auto simp add: queuedOnlyInCooldown_def handleResponse_def disableScanButton_def
        recordSuccess_def Let_def)
qed

lemma responseArrived_inv:
  "queuedOnlyInCooldown st \<Longrightarrow>
   queuedOnlyInCooldown (responseArrived toLowerCase env sub resp st)"
proof -
  assume "queuedOnlyInCooldown st"
  then have "queuedOnlyInCooldown (st\<lparr>inflight := remove1 sub (inflight st)\<rparr>)"
    by (simp add: queuedOnlyInCooldown_def)
  then show ?thesis
    unfolding responseArrived_def Let_def
    by (intro finallyBlock_inv handleResponse_inv)
qed

lemma fire_inv:
  "queuedOnlyInCooldown st \<Longrightarrow> queuedOnlyInCooldown (fire toLowerCase e st)"
proof (cases e)
  case (ScanButton env)
  assume "queuedOnlyInCooldown st"
  then show ?thesis using ScanButton by (simp add: toggleScanning_inv)
next
  case (StopRequest env)
  assume "queuedOnlyInCooldown st"
  then show ?thesis using StopRequest by (auto simp add: queuedOnlyInCooldown_def stop_queue)
next
  case (ModeButton m)
  assume "queuedOnlyInCooldown st"
  then show ?thesis
    using ModeButton by (auto simp add: queuedOnlyInCooldown_def setMode_def Let_def)
next
  case ScanModeButton
  assume "queuedOnlyInCooldown st"
  then show ?thesis
    using ScanModeButton by (simp add: queuedOnlyInCooldown_def toggleScanMode_def)
next
  case (ScanModeRestored saved)
  assume "queuedOnlyInCooldown st"
  then show ?thesis
    using ScanModeRestored
    by (simp add: queuedOnlyInCooldown_def restoreScanMode_def split: option.splits)
next
  case (DuplicateSlider val)
  assume "queuedOnlyInCooldown st"
  then show ?thesis
    using DuplicateSlider
    by (auto simp add: queuedOnlyInCooldown_def duplicateSliderInput_def
        setDuplicateSkipCount_def resetDuplicateState_def Let_def)
next
  case (AnimationFrame env)
  assume "queuedOnlyInCooldown st"
  then show ?thesis using AnimationFrame by (simp add: scanLoop_inv)
next
  case (Response env sub resp)
  assume "queuedOnlyInCooldown st"
  then show ?thesis using Response by (simp add: responseArrived_inv)
next
  case RetryTimer
  assume "queuedOnlyInCooldown st"
  then show ?thesis
    using RetryTimer
    by (auto simp add: queuedOnlyInCooldown_def retryTimerFired_def requestScanLoop_def Let_def)
next
  case ContinuousDelayTimer
  assume "queuedOnlyInCooldown st"
  then show ?thesis
    using ContinuousDelayTimer
    by (auto simp add: queuedOnlyInCooldown_def continuousDelayFired_def requestScanLoop_def
        Let_def)
next
  case (CooldownTimer env)
  assume "queuedOnlyInCooldown st"
  then show ?thesis
    using CooldownTimer
    by (auto simp add: queuedOnlyInCooldown_def cooldownTick_def Let_def stopCooldown_queue)
qed

lemma run_inv:
  "queuedOnlyInCooldown st \<Longrightarrow> queuedOnlyInCooldown (run toLowerCase es st)"
  by (induction es arbitrary: st) (simp_all add: fire_inv)

lemma reachable_inv: "queuedOnlyInCooldown (run toLowerCase es initial)"
  by (rule run_inv) (simp add: queuedOnlyInCooldown_def initial_def)

lemma no_queued_start_outside_cooldown:
  "scanState (run toLowerCase es initial) \<noteq> COOLDOWN \<Longrightarrow>
   \<not> shouldRestartAfterCooldown (run toLowerCase es initial)"
  using reachable_inv [of toLowerCase es] by (simp add: queuedOnlyInCooldown_def)

subsection \<open>A continuous scan from the start\<close>

lemma run_append: "run lower (es @ fs) st = run lower fs (run lower es st)"
  by (induction es arbitrary: st) simp_all

lemma run_frames: "run lower (map AnimationFrame envs) st = snd (scanFrames envs st)"
  by (induction envs arbitrary: st) (simp_all add: Let_def)

lemma greyStarted_eq:
  "toggleScanning greyScene (toggleScanMode initial) =
     initial\<lparr>scanState := SCANNING, isSingleShot := False, lastToggleTime := 1000,
       console := [Committed IDLE SCANNING], scanRafId := Some 1, nextHandle := 2\<rparr>"
  by (simp add: toggleScanMode_def run_defs greyScene_def)

lemma greyFirstFrame_eq:
  "scanLoop greyScene (toggleScanning greyScene (toggleScanMode initial)) =
     (False, initial\<lparr>scanState := SCANNING, isSingleShot := False, lastToggleTime := 1000,
        console := [Committed IDLE SCANNING], lastFrameData := Some greyFrame,
        scanFrameCount := 1, scanRafId := Some 2, nextHandle := 3\<rparr>)"
  unfolding greyStarted_eq
  by (simp add: scanLoop_def checkStabilityAndCapture_def Let_def requestScanLoop_def
      initial_def greyScene_facts)

lemma greyNineteen_eq:
  "scanFrames (replicate 19 greyScene)
     (initial\<lparr>scanState := SCANNING, isSingleShot := False, lastToggleTime := 1000,
        console := [Committed IDLE SCANNING], lastFrameData := Some greyFrame,
        scanFrameCount := 1, scanRafId := Some 2, nextHandle := 3\<rparr>) =
   (0, initial\<lparr>scanState := SCANNING, isSingleShot := False, lastToggleTime := 1000,
        console := [Committed IDLE SCANNING], lastFrameData := Some greyFrame,
        scanFrameCount := 20, stabilityCounter := 19, scanRafId := Some 21, nextHandle := 22\<rparr>)"
proof -
  let ?s = "initial\<lparr>scanState := SCANNING, isSingleShot := False, lastToggleTime := 1000,
        console := [Committed IDLE SCANNING], lastFrameData := Some greyFrame,
        scanFrameCount := 1, scanRafId := Some 2, nextHandle := 3\<rparr>"
  have "scanFrames (replicate 19 greyScene) ?s =
    (0, if replicate 19 greyScene = [] then ?s else
        ?s\<lparr>scanFrameCount := scanFrameCount ?s + length (replicate 19 greyScene),
           stabilityCounter := stabilityCounter ?s + length (replicate 19 greyScene),
           lastFrameData := Some (frameData (last (replicate 19 greyScene))),
           scanRafId := Some (nextHandle ?s + length (replicate 19 greyScene) - 1),
           nextHandle := nextHandle ?s + length (replicate 19 greyScene)\<rparr>)"
    by (rule scanFrames_stable_below [where prev = greyFrame])
       (simp_all add: greyScene_run initial_def STABILITY_THRESHOLD_def)
  then show ?thesis
    by (simp add: initial_def greyScene_facts)
qed

lemma greyTwentieth_eq:
  "scanLoop greyScene
     (initial\<lparr>scanState := SCANNING, isSingleShot := False, lastToggleTime := 1000,
        console := [Committed IDLE SCANNING], lastFrameData := Some greyFrame,
        scanFrameCount := 20, stabilityCounter := 19, scanRafId := Some 21, nextHandle := 22\<rparr>) =
   (True, initial\<lparr>scanState := ANALYZING, isSingleShot := False, lastToggleTime := 1000,
        console := [Committed IDLE SCANNING, Committed SCANNING ANALYZING],
        lastFrameData := Some greyFrame, btnScanDisabled := True,
        scanFrameCount := 21, stabilityCounter := 0, scanRafId := Some 22, nextHandle := 23,
        inflight := [cameraSubmission]\<rparr>)"
proof -
  have still: "avgDiff greyFrame greyFrame < MOTION_THRESHOLD"
    by (simp add: avgDiff_same MOTION_THRESHOLD_def)
  show ?thesis
    by (simp add: scanLoop_def checkStabilityAndCapture_def Let_def requestScanLoop_def
        initial_def greyScene_facts still STABILITY_THRESHOLD_def captureAndAnalyze.simps
        transitionTo_def isApiLimitReached_def ENFORCE_CLIENT_DAILY_LIMIT_def cancelScanLoop_def
        cameraSubmission_def)
qed

lemma greyFrames_eq:
  "scanFrames (replicate 21 greyScene) (toggleScanning greyScene (toggleScanMode initial)) =
   (1, initial\<lparr>scanState := ANALYZING, isSingleShot := False, lastToggleTime := 1000,
        console := [Committed IDLE SCANNING, Committed SCANNING ANALYZING],
        lastFrameData := Some greyFrame, btnScanDisabled := True,
        scanFrameCount := 21, stabilityCounter := 0, scanRafId := Some 22, nextHandle := 23,
        inflight := [cameraSubmission]\<rparr>)"
proof -
  define s0 where "s0 = toggleScanning greyScene (toggleScanMode initial)"
  define s1 where "s1 = initial\<lparr>scanState := SCANNING, isSingleShot := False,
        lastToggleTime := 1000,
        console := [Committed IDLE SCANNING], lastFrameData := Some greyFrame,
        scanFrameCount := 1, scanRafId := Some 2, nextHandle := 3\<rparr>"
  define s2 where "s2 = initial\<lparr>scanState := SCANNING, isSingleShot := False,
        lastToggleTime := 1000,
        console := [Committed IDLE SCANNING], lastFrameData := Some greyFrame,
        scanFrameCount := 20, stabilityCounter := 19, scanRafId := Some 21, nextHandle := 22\<rparr>"
  define s3 where "s3 = initial\<lparr>scanState := ANALYZING, isSingleShot := False,
        lastToggleTime := 1000,
        console := [Committed IDLE SCANNING, Committed SCANNING ANALYZING],
        lastFrameData := Some greyFrame, btnScanDisabled := True,
        scanFrameCount := 21, stabilityCounter := 0, scanRafId := Some 22, nextHandle := 23,
        inflight := [cameraSubmission]\<rparr>"
  have a: "scanLoop greyScene s0 = (False, s1)"
    unfolding s0_def s1_def by (rule greyFirstFrame_eq)
  have b: "scanFrames (replicate 19 greyScene) s1 = (0, s2)"
    unfolding s1_def s2_def by (rule greyNineteen_eq)
  have c: "scanLoop greyScene s2 = (True, s3)"
    unfolding s2_def s3_def by (rule greyTwentieth_eq)
  have "replicate (Suc 20) greyScene = greyScene # replicate 20 greyScene"
    by (simp only: replicate_Suc)
  then have split: "replicate 21 greyScene = greyScene # (replicate 19 greyScene @ [greyScene])"
    by (simp add: twenty_grey)
  have "scanFrames (greyScene # (replicate 19 greyScene @ [greyScene])) s0 = (1, s3)"
    by (simp add: scanFrames_append a b c Let_def)
  then show ?thesis
    unfolding split s0_def s3_def .
qed

lemma greySession_eq:
  "greySession =
     initial\<lparr>scanState := SCANNING, isSingleShot := False, lastToggleTime := 1000,
        console := [Committed IDLE SCANNING, Committed SCANNING ANALYZING,
                    Committed ANALYZING SCANNING],
        lastFrameData := Some greyFrame, lastSentImageHash := Some (replicate 64 100),
        apiCallCount := 1, scanFrameCount := 21, scanRafId := Some 24, nextHandle := 25\<rparr>"
proof -
  define s3 where "s3 = initial\<lparr>scanState := ANALYZING, isSingleShot := False,
        lastToggleTime := 1000,
        console := [Committed IDLE SCANNING, Committed SCANNING ANALYZING],
        lastFrameData := Some greyFrame, btnScanDisabled := True,
        scanFrameCount := 21, stabilityCounter := 0, scanRafId := Some 22, nextHandle := 23,
        inflight := [cameraSubmission]\<rparr>"
  define s4 where "s4 = initial\<lparr>scanState := SCANNING, isSingleShot := False,
        lastToggleTime := 1000,
        console := [Committed IDLE SCANNING, Committed SCANNING ANALYZING,
                    Committed ANALYZING SCANNING],
        lastFrameData := Some greyFrame, lastSentImageHash := Some (replicate 64 100),
        apiCallCount := 1, scanFrameCount := 21, scanRafId := Some 22,
        continuousDelayTimerId := Some 23, nextHandle := 24\<rparr>"
  have frames: "run asciiLower (map AnimationFrame (replicate 21 greyScene))
      (toggleScanning greyScene (toggleScanMode initial)) = s3"
    unfolding s3_def by (simp only: run_frames greyFrames_eq snd_conv)
  have resp: "responseArrived asciiLower greyScene cameraSubmission (Parsed 200 (labelled [])) s3
      = s4"
    unfolding s3_def s4_def
    by (simp add: responseArrived_def handleResponse_def recordSuccess_def finallyBlock_def
        transitionTo_def Let_def labelled_def computeResultFingerprint_def initial_def
        cameraSubmission_def)
  have "greySession = continuousDelayFired s4"
    unfolding greySession_def
    by (simp only: run_append run.simps fire.simps append_Cons append_Nil frames resp)
  then show ?thesis
    unfolding s4_def
    by (simp add: continuousDelayFired_def requestScanLoop_def Let_def initial_def)
qed

lemma greySession_facts:
  "scanState greySession = SCANNING" "stabilityCounter greySession = 0"
  "lastFrameData greySession = Some greyFrame" "\<not> isSingleShot greySession"
  "lastSentImageHash greySession = Some (replicate 64 100)"
  by (simp_all add: greySession_eq initial_def)

section \<open>The stability detector\<close>

text \<open>
  Claim C4, as amended. The motion magnitude \<open>avgDiff\<close> of a frame of the motion canvas is
  the sum over all pixels of the absolute differences of the three colour channels against
  the reference frame, divided by the pixel count. Starting in \<open>SCANNING\<close> with the
  counter at 0, a run of consecutive frame pairs with \<open>avgDiff < 30\<close> fires no stable event
  during its first 19 pairs and fires one at the 20th pair; right after it the counter
  is 0 again. The counter starts over from there: if the capture leaves the state
  \<open>SCANNING\<close>, the next 19 stable pairs fire nothing and the 40th pair fires the second
  event. A pair with \<open>avgDiff \<ge> 30\<close> fires nothing and resets the counter to 0.
\<close>

theorem stable_event_at_threshold:
  "MOTION_THRESHOLD = 30 \<and> STABILITY_THRESHOLD = 20 \<and>
   (length cur = 4 * (MOTION_CANVAS_WIDTH * MOTION_CANVAS_HEIGHT) \<longrightarrow>
      avgDiff cur ref = avgDiffSpec cur ref) \<and>
   (scanState st = SCANNING \<and> stabilityCounter st = 0 \<and> lastFrameData st = Some prev \<and>
    stableRun prev (es @ [e]) \<and> length es = 19 \<longrightarrow>
      (\<forall>k<20. fst (scanFrames (take k (es @ [e])) st) = 0) \<and>
      fst (scanLoop e (snd (scanFrames es st))) \<and>
      fst (scanFrames (es @ [e]) st) = 1 \<and>
      stabilityCounter (snd (scanFrames (es @ [e]) st)) = 0 \<and>
      (scanState (snd (scanFrames (es @ [e]) st)) = SCANNING \<and>
       stableRun (frameData e) (fs @ [f]) \<and> length fs = 19 \<longrightarrow>
         fst (scanFrames ((es @ [e]) @ fs) st) = 1 \<and>
         fst (scanFrames ((es @ [e]) @ fs @ [f]) st) = 2)) \<and>
   (lastFrameData st = Some prev \<and> videoReady e \<and>
    avgDiff (frameData e) prev \<ge> MOTION_THRESHOLD \<longrightarrow>
      \<not> fst (checkStabilityAndCapture e st) \<and>
      stabilityCounter (snd (checkStabilityAndCapture e st)) = 0)"
proof (intro conjI impI)
  show "MOTION_THRESHOLD = 30" by (simp add: MOTION_THRESHOLD_def)
  show "STABILITY_THRESHOLD = 20" by (simp add: STABILITY_THRESHOLD_def)
next
  assume "length cur = 4 * (MOTION_CANVAS_WIDTH * MOTION_CANVAS_HEIGHT)"
  then show "avgDiff cur ref = avgDiffSpec cur ref" by (rule avgDiff_spec)
next
  assume "lastFrameData st = Some prev \<and> videoReady e \<and>
    avgDiff (frameData e) prev \<ge> MOTION_THRESHOLD"
  then show "\<not> fst (checkStabilityAndCapture e st)"
    using checkStability_motion(1) [of st prev e] by simp
next
  assume "lastFrameData st = Some prev \<and> videoReady e \<and>
    avgDiff (frameData e) prev \<ge> MOTION_THRESHOLD"
  then show "stabilityCounter (snd (checkStabilityAndCapture e st)) = 0"
    using checkStability_motion(2) [of st prev e] by simp
next
  assume h: "scanState st = SCANNING \<and> stabilityCounter st = 0 \<and> lastFrameData st = Some prev \<and>
    stableRun prev (es @ [e]) \<and> length es = 19"
  then have a: "scanState st = SCANNING" "stabilityCounter st = 0" "lastFrameData st = Some prev"
    "stableRun prev (es @ [e])" "length es = 19" by simp_all
  show "\<forall>k<20. fst (scanFrames (take k (es @ [e])) st) = 0"
  proof (intro allI impI)
    fix k :: nat assume "k < 20"
    then have "length (take k (es @ [e])) < 20" by simp
    then show "fst (scanFrames (take k (es @ [e])) st) = 0"
      using stable_prefix_silent [OF a(1-3) stableRun_take [OF a(4)]] by blast
  qed
  show "fst (scanLoop e (snd (scanFrames es st)))"
    using stable_threshold_reached(2) [OF a] by simp
  show "fst (scanFrames (es @ [e]) st) = 1"
    using stable_twenty(1) [OF a] .
  show "stabilityCounter (snd (scanFrames (es @ [e]) st)) = 0"
    using stable_twenty(2) [OF a] .
next
  assume h: "scanState st = SCANNING \<and> stabilityCounter st = 0 \<and> lastFrameData st = Some prev \<and>
    stableRun prev (es @ [e]) \<and> length es = 19"
    and g: "scanState (snd (scanFrames (es @ [e]) st)) = SCANNING \<and>
       stableRun (frameData e) (fs @ [f]) \<and> length fs = 19"
  from h have a: "scanState st = SCANNING" "stabilityCounter st = 0" "lastFrameData st = Some prev"
    "stableRun prev (es @ [e])" "length es = 19" by simp_all
  let ?st = "snd (scanFrames (es @ [e]) st)"
  have b: "scanState ?st = SCANNING" "stabilityCounter ?st = 0"
    "lastFrameData ?st = Some (frameData e)" "stableRun (frameData e) (fs @ [f])" "length fs = 19"
    using g stable_twenty(2,3) [OF a] by simp_all
  have one: "fst (scanFrames (es @ [e]) st) = 1"
    using stable_twenty(1) [OF a] .
  show "fst (scanFrames ((es @ [e]) @ fs) st) = 1"
    using one stable_threshold_reached(1) [OF b]
    by (simp only: scanFrames_append [of "es @ [e]" fs] fst_conv)
  show "fst (scanFrames ((es @ [e]) @ fs @ [f]) st) = 2"
    using one stable_twenty(1) [OF b]
    by (simp only: scanFrames_append [of "es @ [e]" "fs @ [f]"] fst_conv)
qed

text \<open>The theorem at the grey scene: twenty equal frames, twenty more, and a lighter
  frame after seven stable pairs.\<close>

theorem stable_event_at_threshold_witness:
  "avgDiff greyFrame lightFrame = avgDiffSpec greyFrame lightFrame \<and>
   fst (scanFrames (replicate 19 greyScene) watchingGrey) = 0 \<and>
   fst (scanFrames (replicate 19 greyScene @ [greyScene]) watchingGrey) = 1 \<and>
   stabilityCounter (snd (scanFrames (replicate 19 greyScene @ [greyScene]) watchingGrey)) = 0 \<and>
   fst (scanFrames ((replicate 19 greyScene @ [greyScene]) @ replicate 19 greyScene @ [greyScene])
          watchingGrey) = 2 \<and>
   \<not> fst (checkStabilityAndCapture lightScene (watchingGrey\<lparr>stabilityCounter := 7\<rparr>)) \<and>
   stabilityCounter (snd (checkStabilityAndCapture lightScene
                            (watchingGrey\<lparr>stabilityCounter := 7\<rparr>))) = 0"
proof -
  have len: "length greyFrame = 4 * (MOTION_CANVAS_WIDTH * MOTION_CANVAS_HEIGHT)"
    by (simp add: greyFrame_def)
  have motion: "avgDiff (frameData lightScene) greyFrame \<ge> MOTION_THRESHOLD"
    by (simp add: lightScene_def lightFrame_def greyFrame_def avgDiff_uniform MOTION_THRESHOLD_def)
  have ready: "videoReady lightScene"
    by (simp add: lightScene_def greyScene_def)
  have again: "stableRun (frameData greyScene) (replicate 19 greyScene @ [greyScene])"
    using grey_round by (simp only: greyScene_facts)
  note run = stable_event_at_threshold
    [where cur = greyFrame and ref = lightFrame and st = watchingGrey and prev = greyFrame
       and es = "replicate 19 greyScene" and e = greyScene
       and fs = "replicate 19 greyScene" and f = greyScene]
  note reset = stable_event_at_threshold
    [where st = "watchingGrey\<lparr>stabilityCounter := 7\<rparr>" and prev = greyFrame
       and e = lightScene]
  have formula: "avgDiff greyFrame lightFrame = avgDiffSpec greyFrame lightFrame"
    using run [THEN conjunct2, THEN conjunct2, THEN conjunct1] len by blast
  have hyps: "scanState watchingGrey = SCANNING \<and> stabilityCounter watchingGrey = 0 \<and>
      lastFrameData watchingGrey = Some greyFrame \<and>
      stableRun greyFrame (replicate 19 greyScene @ [greyScene]) \<and>
      length (replicate 19 greyScene) = 19"
    using watchingGrey_facts(1-3) grey_round by simp
  note fired = run [THEN conjunct2, THEN conjunct2, THEN conjunct2, THEN conjunct1,
      THEN mp, OF hyps]
  have silent: "fst (scanFrames (replicate 19 greyScene) watchingGrey) = 0"
  proof -
    have "fst (scanFrames (take 19 (replicate 19 greyScene @ [greyScene])) watchingGrey) = 0"
      using fired [THEN conjunct1] by simp
    then show ?thesis by simp
  qed
  have twice: "fst (scanFrames ((replicate 19 greyScene @ [greyScene]) @
                  replicate 19 greyScene @ [greyScene]) watchingGrey) = 2"
    using fired [THEN conjunct2, THEN conjunct2, THEN conjunct2, THEN conjunct2]
      grey_round_state again by simp
  note moved = reset [THEN conjunct2, THEN conjunct2, THEN conjunct2, THEN conjunct2, THEN mp]
  have moving: "\<not> fst (checkStabilityAndCapture lightScene (watchingGrey\<lparr>stabilityCounter := 7\<rparr>)) \<and>
      stabilityCounter (snd (checkStabilityAndCapture lightScene
                               (watchingGrey\<lparr>stabilityCounter := 7\<rparr>))) = 0"
    using motion ready watchingGrey_facts(3) by (intro moved) simp
  show ?thesis
    using formula silent fired twice moving by simp
qed

text \<open>
  Claim C4 as stated promises exactly one stable event for any run of at least 20 stable
  pairs in \<open>SCANNING\<close>. In a continuous camera scan of an unchanged scene the capture at
  the 20th pair is skipped as visually unchanged and the state is \<open>SCANNING\<close> again, so
  a run of 40 stable pairs fires two events. The scan is \<open>greySession\<close>: started from the
  initial state, with one crop of the scene accepted; 40 more frames of the same scene
  follow.
\<close>

theorem forty_stable_pairs_fire_twice:
  "scanState greySession = SCANNING \<and> stabilityCounter greySession = 0 \<and>
   lastFrameData greySession = Some greyFrame \<and>
   stableRun greyFrame (replicate 40 greyScene) \<and>
   scanState (snd (scanFrames (replicate 20 greyScene) greySession)) = SCANNING \<and>
   fst (scanFrames (replicate 20 greyScene) greySession) = 1 \<and>
   fst (scanFrames (replicate 40 greyScene) greySession) = 2"
proof -
  let ?es = "replicate 19 greyScene"
  let ?round = "?es @ [greyScene]"
  have "replicate (Suc 19) greyScene = ?round"
    by (simp only: replicate_Suc replicate_append_same)
  then have twenty: "replicate 20 greyScene = ?round"
    by simp
  have "replicate (20 + 20) greyScene = replicate 20 greyScene @ replicate 20 greyScene"
    by (rule replicate_add)
  then have forty: "replicate 40 greyScene = ?round @ ?round"
    by (simp add: twenty)
  have run: "stableRun greyFrame ?round"
    using greyScene_run [of 20] by (simp only: twenty)
  have e: "currentSource greyScene = Camera" "sourceW greyScene \<noteq> 0"
    "cropHash greyScene = replicate 64 100" "frameData greyScene = greyFrame"
    by (simp_all add: greyScene_def)
  note w = greySession_facts
  have gate: "atLeastThreshold
      (compareImageHash (Some (cropHash greyScene)) (Some (replicate 64 100)))"
    by (simp only: e gate_equal_hashes)
  note first = skip_cycle [OF w(1) w(2) w(3) run _ w(4) w(5) gate e(1) e(2), simplified]
  let ?st = "snd (scanFrames ?round greySession)"
  have run2: "stableRun (frameData greyScene) ?round"
    using run by (simp only: e)
  note second = skip_cycle [OF first(2) first(3) first(4) run2 _ first(5) first(6) gate e(1) e(2),
      simplified]
  have "fst (scanFrames (?round @ ?round) greySession) = 2"
    using first(1) second(1) by (simp only: scanFrames_append fst_conv)
  then show ?thesis
    using w first greyScene_run [of 40] by (simp only: twenty forty) simp
qed

section \<open>The visual deduplication gate\<close>

text \<open>
  Claim C5. When a fingerprint of the last submission exists, the similarity of the
  candidate's 64-byte hash against it is \<open>1 - (\<Sum>|a\<^sub>i - b\<^sub>i|) / (64 * 255)\<close>. If the
  similarity is at least 0.95 nothing is submitted: a continuous camera scan is back in
  \<open>SCANNING\<close>, a single-shot scan or a scan of another source is stopped (\<open>IDLE\<close>).
  Below 0.95 the crop is submitted. A difference of 5 in every cell gives the similarity
  \<open>50 / 51\<close>, about 0.980, and the submission is skipped. The capture is one that passes
  the entry check (a source of non-zero width, state other than \<open>ANALYZING\<close>), and no
  start is queued from a cooldown, which is so in every state that the module reaches
  outside \<open>COOLDOWN\<close> (\<open>no_queued_start_outside_cooldown\<close>).
\<close>

theorem visual_gate:
  "lastSentImageHash st = Some prior \<and> length prior = 64 \<and> length (cropHash env) = 64 \<and>
   sourceW env \<noteq> 0 \<and> scanState st \<noteq> ANALYZING \<and> \<not> shouldRestartAfterCooldown st \<longrightarrow>
     compareImageHash (Some (cropHash env)) (lastSentImageHash st) =
       Some (hashSimilaritySpec (cropHash env) prior) \<and>
     (hashSimilaritySpec (cropHash env) prior \<ge> 95 / 100 \<longrightarrow>
        inflight (captureAndAnalyze env st) = inflight st \<and>
        (\<not> isSingleShot st \<and> currentSource env = Camera \<longrightarrow>
           scanState (captureAndAnalyze env st) = SCANNING) \<and>
        (isSingleShot st \<or> currentSource env \<noteq> Camera \<longrightarrow>
           scanState (captureAndAnalyze env st) = IDLE)) \<and>
     (hashSimilaritySpec (cropHash env) prior < 95 / 100 \<longrightarrow>
        inflight (captureAndAnalyze env st) =
          inflight st @ [\<lparr>currentHash = cropHash env,
                          wasStreamingScan = (currentSource env = Camera)\<rparr>]) \<and>
     ((\<forall>i<64. \<bar>int (cropHash env ! i) - int (prior ! i)\<bar> = 5) \<longrightarrow>
        hashSimilaritySpec (cropHash env) prior = 50 / 51 \<and>
        inflight (captureAndAnalyze env st) = inflight st)"
proof (intro impI, elim conjE)
  assume h: "lastSentImageHash st = Some prior" "length prior = 64" "length (cropHash env) = 64"
    "sourceW env \<noteq> 0" "scanState st \<noteq> ANALYZING" "\<not> shouldRestartAfterCooldown st"
  let ?sim = "hashSimilaritySpec (cropHash env) prior"
  have cmp: "compareImageHash (Some (cropHash env)) (Some prior) = Some ?sim"
    using h by (simp add: compareImageHash_spec)
  have gate: "atLeastThreshold (compareImageHash (Some (cropHash env)) (Some prior)) \<longleftrightarrow>
      ?sim \<ge> 95 / 100"
    by (simp add: cmp IMAGE_HASH_THRESHOLD_def)
  have skip: "inflight (captureAndAnalyze env st) = inflight st \<and>
        (\<not> isSingleShot st \<and> currentSource env = Camera \<longrightarrow>
           scanState (captureAndAnalyze env st) = SCANNING) \<and>
        (isSingleShot st \<or> currentSource env \<noteq> Camera \<longrightarrow>
           scanState (captureAndAnalyze env st) = IDLE)" if "?sim \<ge> 95 / 100"
    using that h gate captureAndAnalyze_skip_camera [of env st prior]
      captureAndAnalyze_skip_stop [of env st prior]
    by blast
  have submit: "inflight (captureAndAnalyze env st) =
          inflight st @ [\<lparr>currentHash = cropHash env,
                          wasStreamingScan = (currentSource env = Camera)\<rparr>]"
    if "?sim < 95 / 100"
    using that h gate captureAndAnalyze_submit(1) [of env st] by simp
  have five: "?sim = 50 / 51 \<and> inflight (captureAndAnalyze env st) = inflight st"
    if "\<forall>i<64. \<bar>int (cropHash env ! i) - int (prior ! i)\<bar> = 5"
  proof -
    have "?sim = 50 / 51" using that by (rule uniform_delta_similarity)
    moreover then have "?sim \<ge> 95 / 100" by simp
    ultimately show ?thesis using skip by blast
  qed
  show "compareImageHash (Some (cropHash env)) (lastSentImageHash st) = Some ?sim \<and>
     (?sim \<ge> 95 / 100 \<longrightarrow>
        inflight (captureAndAnalyze env st) = inflight st \<and>
        (\<not> isSingleShot st \<and> currentSource env = Camera \<longrightarrow>
           scanState (captureAndAnalyze env st) = SCANNING) \<and>
        (isSingleShot st \<or> currentSource env \<noteq> Camera \<longrightarrow>
           scanState (captureAndAnalyze env st) = IDLE)) \<and>
     (?sim < 95 / 100 \<longrightarrow>
        inflight (captureAndAnalyze env st) =
          inflight st @ [\<lparr>currentHash = cropHash env,
                          wasStreamingScan = (currentSource env = Camera)\<rparr>]) \<and>
     ((\<forall>i<64. \<bar>int (cropHash env ! i) - int (prior ! i)\<bar> = 5) \<longrightarrow>
        ?sim = 50 / 51 \<and> inflight (captureAndAnalyze env st) = inflight st)"
    using cmp h(1) skip submit five by simp
qed

theorem visual_gate_witness:
  "compareImageHash (Some (replicate 64 105)) (Some (replicate 64 100)) = Some (50 / 51) \<and>
   scanState (captureAndAnalyze (greyScene\<lparr>cropHash := replicate 64 105\<rparr>) watchingGrey) = SCANNING \<and>
   scanState (captureAndAnalyze (greyScene\<lparr>cropHash := replicate 64 105\<rparr>)
                (watchingGrey\<lparr>isSingleShot := True\<rparr>)) = IDLE \<and>
   inflight (captureAndAnalyze (greyScene\<lparr>cropHash := replicate 64 200\<rparr>) watchingGrey) =
     [\<lparr>currentHash = replicate 64 200, wasStreamingScan = True\<rparr>]"
proof -
  have five: "\<forall>i<64. \<bar>int (replicate 64 105 ! i) - int (replicate 64 100 ! i)\<bar> = 5"
    by simp
  have sim5: "hashSimilaritySpec (replicate 64 105) (replicate 64 100) = 50 / 51"
    using five by (rule uniform_delta_similarity)
  have sim100: "hashSimilaritySpec (replicate 64 200) (replicate 64 100) < 95 / 100"
    by (simp add: hashSimilaritySpec_def)
  note a = visual_gate [where st = watchingGrey and prior = "replicate 64 100"
      and env = "greyScene\<lparr>cropHash := replicate 64 105\<rparr>"]
  note b = visual_gate [where st = "watchingGrey\<lparr>isSingleShot := True\<rparr>"
      and prior = "replicate 64 100" and env = "greyScene\<lparr>cropHash := replicate 64 105\<rparr>"]
  note c = visual_gate [where st = watchingGrey and prior = "replicate 64 100"
      and env = "greyScene\<lparr>cropHash := replicate 64 200\<rparr>"]
  show ?thesis
    using a b c sim5 sim100 watchingGrey_facts greyScene_facts
    by simp
qed

section \<open>The fingerprint of the last submission\<close>

text \<open>
  Claim C6. \<^verbatim>\<open>lastSentImageHash\<close> is replaced by the hash of the submitted crop only
  when the response is a success (a body with \<^verbatim>\<open>ok: true\<close> and a status other than
  429). The synchronous part of a capture, whether it skips or submits, leaves it
  unchanged, and so does every failed submission: a thrown request, an unparsable body,
  a quota rejection, a body with \<^verbatim>\<open>ok: false\<close>. No start is queued from a cooldown,
  which is so in every state that the module reaches outside \<open>COOLDOWN\<close>
  (\<open>no_queued_start_outside_cooldown\<close>).
\<close>

theorem lastSentImageHash_only_on_success:
  "\<not> shouldRestartAfterCooldown st \<longrightarrow>
     lastSentImageHash (captureAndAnalyze env st) = lastSentImageHash st \<and>
     lastSentImageHash (responseArrived toLowerCase env sub resp st) =
       (if accepted resp then Some (currentHash sub) else lastSentImageHash st)"
  by (simp add: captureAndAnalyze_lastSent responseArrived_def Let_def handleResponse_lastSent)

theorem lastSentImageHash_only_on_success_witness:
  "lastSentImageHash (captureAndAnalyze greyScene watchingGrey) = Some (replicate 64 100) \<and>
   lastSentImageHash (responseArrived asciiLower stillImage stillSubmission
                        (Parsed 200 appleBody) analyzingStill) = Some (replicate 64 128) \<and>
   lastSentImageHash (responseArrived asciiLower stillImage stillSubmission
                        (Threw AbortError) analyzingStill) = None \<and>
   lastSentImageHash (responseArrived asciiLower stillImage stillSubmission
                        (Parsed 429 minuteLimit) analyzingStill) = None"
  using lastSentImageHash_only_on_success [of watchingGrey greyScene]
    lastSentImageHash_only_on_success
      [of analyzingStill stillImage asciiLower stillSubmission "Parsed 200 appleBody"]
    lastSentImageHash_only_on_success
      [of analyzingStill stillImage asciiLower stillSubmission "Threw AbortError"]
    lastSentImageHash_only_on_success
      [of analyzingStill stillImage asciiLower stillSubmission "Parsed 429 minuteLimit"]
  by (simp add: watchingGrey_facts analyzingStill_eq initial_def appleBody_def labelled_def
      stillSubmission_def)

section \<open>Retry with exponential backoff\<close>

text \<open>
  Claim C8. When the request of a camera-driven scan fails at transport level while the
  state is \<open>ANALYZING\<close>, the state becomes \<open>PAUSED_ERROR\<close>, the consecutive-error counter
  is incremented, and the retry timer is set with the delay
  \<open>min(5000 * 2^(n - 1) * jitter, 60000)\<close>, where \<open>n\<close> is the incremented counter and
  \<open>jitter = 0.75 + 0.5 * Math.random()\<close> lies in \<open>[0.75, 1.25]\<close>. The delay never exceeds
  60000 ms; for \<open>n = 3\<close> the candidate without jitter is 20000 ms and the delay lies in
  \<open>[15000, 25000]\<close>.
\<close>

theorem retry_backoff:
  "scanState st = ANALYZING \<and> wasStreamingScan sub \<and> 0 \<le> random env \<and> random env < 1 \<longrightarrow>
     scanState (responseArrived toLowerCase env sub (Threw err) st) = PAUSED_ERROR \<and>
     consecutiveErrorCount (responseArrived toLowerCase env sub (Threw err) st) =
       consecutiveErrorCount st + 1 \<and>
     retryTimerId (responseArrived toLowerCase env sub (Threw err) st) = Some (nextHandle st) \<and>
     retryDelay (responseArrived toLowerCase env sub (Threw err) st) =
       Some (retryDelaySpec 5000 60000 (consecutiveErrorCount st + 1) (3 / 4 + random env / 2)) \<and>
     3 / 4 \<le> 3 / 4 + random env / 2 \<and> 3 / 4 + random env / 2 \<le> 5 / 4 \<and>
     retryDelaySpec 5000 60000 (consecutiveErrorCount st + 1) (3 / 4 + random env / 2) \<le> 60000 \<and>
     (consecutiveErrorCount st + 1 = 3 \<longrightarrow>
        (5000::real) * 2 ^ (3 - 1) = 20000 \<and>
        15000 \<le> retryDelaySpec 5000 60000 (consecutiveErrorCount st + 1) (3 / 4 + random env / 2) \<and>
        retryDelaySpec 5000 60000 (consecutiveErrorCount st + 1) (3 / 4 + random env / 2) \<le> 25000)"
proof (intro impI, elim conjE)
  assume h: "scanState st = ANALYZING" "wasStreamingScan sub" "0 \<le> random env" "random env < 1"
  let ?j = "3 / 4 + random env / 2"
  have j: "3 / 4 \<le> ?j" "?j \<le> 5 / 4" using h by simp_all
  have three: "15000 \<le> retryDelaySpec 5000 60000 3 ?j \<and> retryDelaySpec 5000 60000 3 ?j \<le> 25000"
    using j by (simp add: retryDelaySpec_def)
  have cap: "retryDelaySpec 5000 60000 n ?j \<le> 60000" for n
    by (simp add: retryDelaySpec_def)
  show "scanState (responseArrived toLowerCase env sub (Threw err) st) = PAUSED_ERROR \<and>
     consecutiveErrorCount (responseArrived toLowerCase env sub (Threw err) st) =
       consecutiveErrorCount st + 1 \<and>
     retryTimerId (responseArrived toLowerCase env sub (Threw err) st) = Some (nextHandle st) \<and>
     retryDelay (responseArrived toLowerCase env sub (Threw err) st) =
       Some (retryDelaySpec 5000 60000 (consecutiveErrorCount st + 1) ?j) \<and>
     3 / 4 \<le> ?j \<and> ?j \<le> 5 / 4 \<and>
     retryDelaySpec 5000 60000 (consecutiveErrorCount st + 1) ?j \<le> 60000 \<and>
     (consecutiveErrorCount st + 1 = 3 \<longrightarrow>
        (5000::real) * 2 ^ (3 - 1) = 20000 \<and>
        15000 \<le> retryDelaySpec 5000 60000 (consecutiveErrorCount st + 1) ?j \<and>
        retryDelaySpec 5000 60000 (consecutiveErrorCount st + 1) ?j \<le> 25000)"
    using responseArrived_failure [OF h(1,2), of toLowerCase env err] j three cap
    by (simp add: RETRY_BASE_DELAY_MS_def RETRY_MAX_DELAY_MS_def)
qed

theorem retry_backoff_witness:
  "scanState (responseArrived asciiLower greyScene cameraSubmission (Threw OtherFailure)
                (watchingGrey\<lparr>scanState := ANALYZING, consecutiveErrorCount := 2\<rparr>)) = PAUSED_ERROR \<and>
   consecutiveErrorCount (responseArrived asciiLower greyScene cameraSubmission (Threw OtherFailure)
                (watchingGrey\<lparr>scanState := ANALYZING, consecutiveErrorCount := 2\<rparr>)) = 3 \<and>
   retryDelay (responseArrived asciiLower greyScene cameraSubmission (Threw OtherFailure)
                (watchingGrey\<lparr>scanState := ANALYZING, consecutiveErrorCount := 2\<rparr>)) = Some 20000"
  using retry_backoff [of "watchingGrey\<lparr>scanState := ANALYZING, consecutiveErrorCount := 2\<rparr>"
      cameraSubmission greyScene asciiLower OtherFailure]
  by (simp add: cameraSubmission_def greyScene_facts retryDelaySpec_def)

section \<open>The first capture of a scan\<close>



section \<open>Result fingerprints and duplicate counting\<close>

subsection \<open>The confidence suffix\<close>








subsection \<open>The fingerprint of a list of items\<close>






subsection \<open>Counting repeats\<close>

lemma finallyBlock_dup [simp]:
  "duplicateCount (finallyBlock sub pending st) = duplicateCount st"
  "lastResultFingerprint (finallyBlock sub pending st) = lastResultFingerprint st"
  by (simp_all add: finallyBlock_def requestScanLoop_def Let_def)










end
